theory Spec2Isabelle
  imports Complex_Main "HOL-Library.AList"
begin

section \<open>Numbers, vectors and quaternions\<close>

text \<open>
  The program is TypeScript on three.js. A TypeScript \<^verbatim>\<open>number\<close> is modelled as a
  \<^typ>\<open>real\<close> and its operations as exact, except where a definition takes the rounding
  as a parameter and \<open>toDouble\<close> is put there; the channel count and the loop counters are
  \<^typ>\<open>int\<close>. A JavaScript \<^verbatim>\<open>Map\<close> is an association list in insertion order:
  \<^verbatim>\<open>get\<close> is \<^const>\<open>map_of\<close>, \<^verbatim>\<open>set\<close> is \<^const>\<open>AList.update\<close> (an existing key
  keeps its place, a new key goes last), \<^verbatim>\<open>delete\<close> is \<^const>\<open>AList.delete\<close>.
\<close>

record Vector3 =
  vx :: real
  vy :: real
  vz :: real

record Quaternion =
  qx :: real
  qy :: real
  qz :: real
  qw :: real

text \<open>\<^verbatim>\<open>THREE.Euler\<close>; every Euler angle of the repository is set with order "YXZ".\<close>

record Euler =
  ex :: real
  ey :: real
  ez :: real

text \<open>\<^verbatim>\<open>THREE.MathUtils.degToRad\<close>: degrees times \<open>pi / 180\<close>.\<close>

definition degToRad :: "real \<Rightarrow> real" where
  "degToRad degrees = degrees * (pi / 180)"

text \<open>
  \<^verbatim>\<open>Quaternion.setFromEuler\<close> of three.js for the order "YXZ" (the library is not part
  of the repository; this is its published formula).
\<close>

definition setFromEuler :: "Euler \<Rightarrow> Quaternion" where
  "setFromEuler e =
     (let c1 = cos (ex e / 2); c2 = cos (ey e / 2); c3 = cos (ez e / 2);
          s1 = sin (ex e / 2); s2 = sin (ey e / 2); s3 = sin (ez e / 2)
      in \<lparr> qx = s1 * c2 * c3 + c1 * s2 * s3,
           qy = c1 * s2 * c3 - s1 * c2 * s3,
           qz = c1 * c2 * s3 - s1 * s2 * c3,
           qw = c1 * c2 * c3 + s1 * s2 * s3 \<rparr>)"

text \<open>\<^verbatim>\<open>Vector3.applyQuaternion\<close> of three.js: \<open>v + w t + q \<times> t\<close> with \<open>t = 2 (q \<times> v)\<close>.\<close>

definition applyQuaternion :: "Quaternion \<Rightarrow> Vector3 \<Rightarrow> Vector3" where
  "applyQuaternion q v =
     (let tx = 2 * (qy q * vz v - qz q * vy v);
          ty = 2 * (qz q * vx v - qx q * vz v);
          tz = 2 * (qx q * vy v - qy q * vx v)
      in \<lparr> vx = vx v + qw q * tx + qy q * tz - qz q * ty,
           vy = vy v + qw q * ty + qz q * tx - qx q * tz,
           vz = vz v + qw q * tz + qx q * ty - qy q * tx \<rparr>)"

definition vlength :: "Vector3 \<Rightarrow> real" where
  "vlength v = sqrt (vx v * vx v + vy v * vy v + vz v * vz v)"

text \<open>\<^verbatim>\<open>Vector3.normalize\<close>: \<^verbatim>\<open>divideScalar(length() || 1)\<close>.\<close>

definition normalize :: "Vector3 \<Rightarrow> Vector3" where
  "normalize v =
     (let l = (if vlength v = 0 then 1 else vlength v)
      in \<lparr> vx = vx v / l, vy = vy v / l, vz = vz v / l \<rparr>)"

text \<open>\<^verbatim>\<open>a.copy(p).addScaledVector(d, s)\<close>.\<close>

definition addScaledVector :: "Vector3 \<Rightarrow> Vector3 \<Rightarrow> real \<Rightarrow> Vector3" where
  "addScaledVector p d s = \<lparr> vx = vx p + vx d * s, vy = vy p + vy d * s, vz = vz p + vz d * s \<rparr>"

text \<open>
  The rounding of IEEE 754 double precision, which every arithmetic operation of the
  program applies to its exact result: to the nearest multiple of \<open>2\<^sup>e\<^sup>-\<^sup>5\<^sup>2\<close>, where
  \<open>2\<^sup>e \<le> |x| < 2\<^sup>e\<^sup>+\<^sup>1\<close> and \<open>e\<close> is at least -1022 (below that the spacing stays
  \<open>2\<^sup>-\<^sup>1\<^sup>0\<^sup>7\<^sup>4\<close>), a tie going to the even multiple. Results of magnitude \<open>2\<^sup>1\<^sup>0\<^sup>2\<^sup>4\<close> or more,
  which the program would turn into an infinity, are outside this model.
\<close>

definition roundHalfEven :: "real \<Rightarrow> int" where
  "roundHalfEven x =
     (let f = \<lfloor>x\<rfloor>; r = x - real_of_int f
      in if r < 1/2 then f else if 1/2 < r then f + 1 else if even f then f else f + 1)"

definition binade :: "real \<Rightarrow> int" where
  "binade x = \<lfloor>log 2 \<bar>x\<bar>\<rfloor>"

definition toDouble :: "real \<Rightarrow> real" where
  "toDouble x =
     (if x = 0 then 0
      else let q = 2 powi (max (binade x) (- 1022) - 52)
           in real_of_int (roundHalfEven (x / q)) * q)"

text \<open>
  The mathematical side of the rotation claims: the Hamilton product, the rotation about
  a coordinate axis by an angle, and the rotation \<open>q v q\<^sup>*\<close> of a vector by a quaternion.
\<close>

definition qmul :: "Quaternion \<Rightarrow> Quaternion \<Rightarrow> Quaternion" where
  "qmul a b =
     \<lparr> qx = qw a * qx b + qx a * qw b + qy a * qz b - qz a * qy b,
       qy = qw a * qy b - qx a * qz b + qy a * qw b + qz a * qx b,
       qz = qw a * qz b + qx a * qy b - qy a * qx b + qz a * qw b,
       qw = qw a * qw b - qx a * qx b - qy a * qy b - qz a * qz b \<rparr>"

definition qconj :: "Quaternion \<Rightarrow> Quaternion" where
  "qconj q = \<lparr> qx = - qx q, qy = - qy q, qz = - qz q, qw = qw q \<rparr>"

definition rotX :: "real \<Rightarrow> Quaternion" where
  "rotX a = \<lparr> qx = sin (a / 2), qy = 0, qz = 0, qw = cos (a / 2) \<rparr>"

definition rotY :: "real \<Rightarrow> Quaternion" where
  "rotY a = \<lparr> qx = 0, qy = sin (a / 2), qz = 0, qw = cos (a / 2) \<rparr>"

definition rotZ :: "real \<Rightarrow> Quaternion" where
  "rotZ a = \<lparr> qx = 0, qy = 0, qz = sin (a / 2), qw = cos (a / 2) \<rparr>"

definition pureQuaternion :: "Vector3 \<Rightarrow> Quaternion" where
  "pureQuaternion v = \<lparr> qx = vx v, qy = vy v, qz = vz v, qw = 0 \<rparr>"

definition qrotate :: "Quaternion \<Rightarrow> Vector3 \<Rightarrow> Vector3" where
  "qrotate q v =
     (let r = qmul (qmul q (pureQuaternion v)) (qconj q)
      in \<lparr> vx = qx r, vy = qy r, vz = qz r \<rparr>)"

section \<open>Sensor catalogue and placement registry (sensor.ts)\<close>

datatype BeamLayout = verticalEven | singlePlane

record SensorDefinition =
  definition_id :: string
  displayName :: string
  hFov :: real
  vFov :: real
  maxRange :: real
  channels :: int
  beamLayout :: BeamLayout
  modelFile :: string

record Rotation =
  roll :: real
  pitch :: real
  yaw :: real

record PlacedSensorData =
  sensor_id :: string
  definitionId :: string
  sensor_position :: Vector3
  rotation :: Rotation
  visible :: bool

text \<open>
  The \<^verbatim>\<open>THREE.Group\<close> of a placed sensor: the fields \<^verbatim>\<open>addSensor\<close> sets. Its children
  (the model, loaded asynchronously) are not modelled. \<^verbatim>\<open>group.quaternion\<close> is kept in
  step with \<^verbatim>\<open>group.rotation\<close> by three.js, so it is a function of the rotation.
\<close>

record SensorGroup =
  group_position :: Vector3
  group_rotation :: Euler
  group_name :: string
  group_visible :: bool

definition quaternion :: "SensorGroup \<Rightarrow> Quaternion" where
  "quaternion g = setFromEuler (group_rotation g)"

record SensorManager =
  sensorDefinitions :: "(string \<times> SensorDefinition) list"
  placedSensors :: "(string \<times> SensorGroup) list"
  placedSensorData :: "(string \<times> PlacedSensorData) list"
  sensorConsole :: "string list"

definition getSensorDefinitionById :: "SensorManager \<Rightarrow> string \<Rightarrow> SensorDefinition option" where
  "getSensorDefinitionById sm k = map_of (sensorDefinitions sm) k"

definition getPlacedSensorById :: "SensorManager \<Rightarrow> string \<Rightarrow> SensorGroup option" where
  "getPlacedSensorById sm k = map_of (placedSensors sm) k"

definition getAllPlacedSensorData :: "SensorManager \<Rightarrow> PlacedSensorData list" where
  "getAllPlacedSensorData sm = map snd (placedSensorData sm)"

text \<open>The group \<^verbatim>\<open>addSensor\<close> builds: \<^verbatim>\<open>rotation.set(pitch, yaw, roll, "YXZ")\<close> in radians.\<close>

definition newSensorGroup :: "PlacedSensorData \<Rightarrow> SensorGroup" where
  "newSensorGroup d =
     \<lparr> group_position = sensor_position d,
       group_rotation = \<lparr> ex = degToRad (pitch (rotation d)),
                          ey = degToRad (yaw (rotation d)),
                          ez = degToRad (roll (rotation d)) \<rparr>,
       group_name = sensor_id d,
       group_visible = visible d \<rparr>"

text \<open>
  \<^verbatim>\<open>addSensor\<close>: an unknown \<^verbatim>\<open>definitionId\<close> is reported on the console and nothing is
  registered; nothing is thrown.
\<close>

definition addSensor :: "PlacedSensorData \<Rightarrow> SensorManager \<Rightarrow> SensorManager" where
  "addSensor d sm =
     (case map_of (sensorDefinitions sm) (definitionId d) of
        None \<Rightarrow>
          sm\<lparr> sensorConsole := sensorConsole sm @
                 [''Sensor definition '' @ definitionId d @ '' not found.''] \<rparr>
      | Some _ \<Rightarrow>
          sm\<lparr> placedSensors := AList.update (sensor_id d) (newSensorGroup d) (placedSensors sm),
              placedSensorData := AList.update (sensor_id d) d (placedSensorData sm) \<rparr>)"

definition removeSensor :: "string \<Rightarrow> SensorManager \<Rightarrow> SensorManager" where
  "removeSensor k sm =
     (case map_of (placedSensors sm) k of
        Some _ \<Rightarrow>
          sm\<lparr> placedSensors := AList.delete k (placedSensors sm),
              placedSensorData := AList.delete k (placedSensorData sm) \<rparr>
      | None \<Rightarrow>
          sm\<lparr> sensorConsole := sensorConsole sm @
                 [''Sensor with ID '' @ k @ '' not found for removal.''] \<rparr>)"

definition updateSensor ::
  "string \<Rightarrow> Vector3 option \<Rightarrow> Rotation option \<Rightarrow> SensorManager \<Rightarrow> SensorManager" where
  "updateSensor k newPosition newRotation sm =
     (case (map_of (placedSensors sm) k, map_of (placedSensorData sm) k) of
        (Some g, Some d) \<Rightarrow>
          (let g1 = (case newPosition of None \<Rightarrow> g | Some p \<Rightarrow> g\<lparr> group_position := p \<rparr>);
               d1 = (case newPosition of None \<Rightarrow> d | Some p \<Rightarrow> d\<lparr> sensor_position := p \<rparr>);
               g2 = (case newRotation of None \<Rightarrow> g1
                     | Some r \<Rightarrow> g1\<lparr> group_rotation :=
                         \<lparr> ex = degToRad (pitch r), ey = degToRad (yaw r), ez = degToRad (roll r) \<rparr> \<rparr>);
               d2 = (case newRotation of None \<Rightarrow> d1 | Some r \<Rightarrow> d1\<lparr> rotation := r \<rparr>)
           in sm\<lparr> placedSensors := AList.update k g2 (placedSensors sm),
                  placedSensorData := AList.update k d2 (placedSensorData sm) \<rparr>)
      | _ \<Rightarrow>
          sm\<lparr> sensorConsole := sensorConsole sm @
                 [''Sensor with ID '' @ k @ '' not found for update.''] \<rparr>)"

definition setSensorVisibility :: "string \<Rightarrow> bool \<Rightarrow> SensorManager \<Rightarrow> SensorManager" where
  "setSensorVisibility k v sm =
     (case (map_of (placedSensors sm) k, map_of (placedSensorData sm) k) of
        (Some g, Some d) \<Rightarrow>
          sm\<lparr> placedSensors := AList.update k (g\<lparr> group_visible := v \<rparr>) (placedSensors sm),
              placedSensorData := AList.update k (d\<lparr> visible := v \<rparr>) (placedSensorData sm) \<rparr>
      | _ \<Rightarrow>
          sm\<lparr> sensorConsole := sensorConsole sm @
                 [''Sensor with ID '' @ k @ '' not found for visibility toggle.''] \<rparr>)"

definition serializeSensors :: "SensorManager \<Rightarrow> PlacedSensorData list" where
  "serializeSensors sm = map snd (placedSensorData sm)"

text \<open>
  \<^verbatim>\<open>deserializeSensors\<close>: the two \<^verbatim>\<open>forEach\<close> loops are folds, the first over the
  snapshot \<^verbatim>\<open>getAllPlacedSensorData()\<close> taken before any removal.
\<close>

definition deserializeSensors :: "PlacedSensorData list \<Rightarrow> SensorManager \<Rightarrow> SensorManager" where
  "deserializeSensors data sm =
     fold addSensor data
       (fold (\<lambda>s. removeSensor (sensor_id s)) (getAllPlacedSensorData sm) sm)"

section \<open>Obstacle registry (obstacle.ts)\<close>

record Dimensions =
  width :: real
  height :: real
  depth :: real

record ObstacleData =
  obstacle_id :: string
  obstacle_position :: Vector3
  dimensions :: Dimensions

text \<open>
  The \<^verbatim>\<open>THREE.Mesh\<close> of an obstacle: its name, its position and the \<^verbatim>\<open>parameters\<close> of
  its \<^verbatim>\<open>BoxGeometry\<close>. The scene graph, \<^verbatim>\<open>selectableObjects\<close> and the transform
  controls are presentation state and are not modelled.
\<close>

record ObstacleMesh =
  mesh_name :: string
  mesh_position :: Vector3
  parameters :: Dimensions

record ObstacleManager =
  obstacles :: "(string \<times> ObstacleMesh) list"
  obstacleConsole :: "string list"

definition newObstacleMesh :: "ObstacleData \<Rightarrow> ObstacleMesh" where
  "newObstacleMesh d =
     \<lparr> mesh_name = obstacle_id d, mesh_position = obstacle_position d, parameters = dimensions d \<rparr>"

definition addObstacle :: "ObstacleData \<Rightarrow> ObstacleManager \<Rightarrow> ObstacleManager" where
  "addObstacle d om =
     om\<lparr> obstacles := AList.update (obstacle_id d) (newObstacleMesh d) (obstacles om) \<rparr>"

definition getObstacleById :: "ObstacleManager \<Rightarrow> string \<Rightarrow> ObstacleMesh option" where
  "getObstacleById om k = map_of (obstacles om) k"

definition updateObstacle ::
  "string \<Rightarrow> Vector3 option \<Rightarrow> Dimensions option \<Rightarrow> ObstacleManager \<Rightarrow> ObstacleManager" where
  "updateObstacle k newPosition newDimensions om =
     (case map_of (obstacles om) k of
        None \<Rightarrow>
          om\<lparr> obstacleConsole := obstacleConsole om @
                 [''Obstacle with ID '' @ k @ '' not found for update.''] \<rparr>
      | Some obstacle \<Rightarrow>
          (let o1 = (case newPosition of None \<Rightarrow> obstacle
                     | Some p \<Rightarrow> obstacle\<lparr> mesh_position := p \<rparr>);
               o2 = (case newDimensions of None \<Rightarrow> o1 | Some dims \<Rightarrow> o1\<lparr> parameters := dims \<rparr>)
           in om\<lparr> obstacles := AList.update k o2 (obstacles om) \<rparr>))"

definition removeObstacle :: "string \<Rightarrow> ObstacleManager \<Rightarrow> ObstacleManager" where
  "removeObstacle k om =
     (case map_of (obstacles om) k of
        Some _ \<Rightarrow> om\<lparr> obstacles := AList.delete k (obstacles om) \<rparr>
      | None \<Rightarrow>
          om\<lparr> obstacleConsole := obstacleConsole om @
                 [''Obstacle with ID '' @ k @ '' not found for removal.''] \<rparr>)"

definition getAllObstacles :: "ObstacleManager \<Rightarrow> ObstacleMesh list" where
  "getAllObstacles om = map snd (obstacles om)"

definition serializeObstacles :: "ObstacleManager \<Rightarrow> ObstacleData list" where
  "serializeObstacles om =
     map (\<lambda>(k, obstacle).
            \<lparr> obstacle_id = k, obstacle_position = mesh_position obstacle,
              dimensions = parameters obstacle \<rparr>)
         (obstacles om)"

definition deserializeObstacles :: "ObstacleData list \<Rightarrow> ObstacleManager \<Rightarrow> ObstacleManager" where
  "deserializeObstacles data om =
     fold addObstacle data
       (fold (\<lambda>obs. removeObstacle (mesh_name obs)) (getAllObstacles om) om)"

section \<open>World model (world.ts)\<close>

record WorldDimensions =
  xMin :: real
  xMax :: real
  yMin :: real
  yMax :: real
  zMin :: real
  zMax :: real

text \<open>The floor mesh: a \<^verbatim>\<open>PlaneGeometry(sizeX, sizeZ)\<close> laid flat at height \<^verbatim>\<open>yMin\<close>.\<close>

record FloorPlane =
  plane_sizeX :: real
  plane_sizeZ :: real
  plane_position :: Vector3

record WorldManager =
  floorPlane :: "FloorPlane option"
  worldDimensions :: "WorldDimensions option"

definition initWorld :: "WorldDimensions \<Rightarrow> WorldManager \<Rightarrow> WorldManager" where
  "initWorld dims wm =
     (let sizeX = xMax dims - xMin dims;
          sizeZ = zMax dims - zMin dims;
          centerX = (xMin dims + xMax dims) / 2;
          centerZ = (zMin dims + zMax dims) / 2
      in wm\<lparr> worldDimensions := Some dims,
             floorPlane := Some \<lparr> plane_sizeX = sizeX, plane_sizeZ = sizeZ,
                                  plane_position = \<lparr> vx = centerX, vy = yMin dims, vz = centerZ \<rparr> \<rparr> \<rparr>)"

definition getFloorPlane :: "WorldManager \<Rightarrow> FloorPlane option" where
  "getFloorPlane wm = floorPlane wm"

section \<open>Ray sampling and intersection (beams.ts)\<close>

datatype Object3D = ObstacleObject ObstacleMesh | FloorObject FloorPlane

text \<open>
  \<^verbatim>\<open>Raycaster.intersectObjects\<close> belongs to three.js. The geometry of one object against
  one ray is a parameter: \<open>raycast ob origin direction\<close> lists the distances along the ray
  at which it meets \<open>ob\<close>. The library keeps the distances between \<^verbatim>\<open>near\<close> (0, never
  changed by the repository) and \<^verbatim>\<open>far\<close>, and returns them sorted, nearest first.
\<close>

type_synonym Raycast = "Object3D \<Rightarrow> Vector3 \<Rightarrow> Vector3 \<Rightarrow> real list"

definition intersectObjects ::
  "Raycast \<Rightarrow> real \<Rightarrow> Object3D list \<Rightarrow> Vector3 \<Rightarrow> Vector3 \<Rightarrow> real list" where
  "intersectObjects raycast far objs origin direction =
     sort (filter (\<lambda>t. 0 \<le> t \<and> t \<le> far) (concat (map (\<lambda>ob. raycast ob origin direction) objs)))"

record ConeGeometry =
  cone_radius :: real
  cone_height :: real

text \<open>
  One beam: its cone, its position and the unit vector its quaternion is set from
  (\<^verbatim>\<open>setFromUnitVectors((0,1,0), direction)\<close>).
\<close>

record BeamMesh =
  beam_geometry :: ConeGeometry
  beam_position :: Vector3
  beam_direction :: Vector3

record BeamGroup =
  beams_name :: string
  children :: "BeamMesh list"

text \<open>
  The state of the \<^verbatim>\<open>BeamManager\<close>: the map \<^verbatim>\<open>beamMeshes\<close>, the beam groups that are
  children of the scene, and the geometries disposed so far.
\<close>

record BeamManager =
  beamMeshes :: "(string \<times> BeamGroup) list"
  scene :: "BeamGroup list"
  disposed :: "ConeGeometry list"

definition clearBeamsForSensor :: "string \<Rightarrow> BeamManager \<Rightarrow> BeamManager" where
  "clearBeamsForSensor sensorId bm =
     (case map_of (beamMeshes bm) sensorId of
        None \<Rightarrow> bm
      | Some existingBeamGroup \<Rightarrow>
          bm\<lparr> disposed := disposed bm @ map beam_geometry (children existingBeamGroup),
              scene := remove1 existingBeamGroup (scene bm),
              beamMeshes := AList.delete sensorId (beamMeshes bm) \<rparr>)"

definition vAngleStep :: "SensorDefinition \<Rightarrow> real" where
  "vAngleStep d = vFov d / real_of_int (max 1 (channels d - 1))"

definition vAngleRad :: "SensorDefinition \<Rightarrow> int \<Rightarrow> real" where
  "vAngleRad d i =
     (if channels d = 1 then 0
      else if beamLayout d = verticalEven
           then degToRad (- (vFov d / 2) + real_of_int i * vAngleStep d)
      else 0)"

text \<open>
  The argument of \<^verbatim>\<open>degToRad\<close> in the \<open>verticalEven\<close> branch,
  \<^verbatim>\<open>-(vFov / 2) + i * (vFov / Math.max(1, channels - 1))\<close>, with the rounding applied after
  each of its four operations as a parameter (the negation and the integer subtraction
  are exact): the identity gives the exact value, \<open>toDouble\<close> the value the program
  computes.
\<close>

definition vAngleDegRounded :: "(real \<Rightarrow> real) \<Rightarrow> SensorDefinition \<Rightarrow> int \<Rightarrow> real" where
  "vAngleDegRounded rnd d i =
     rnd (- rnd (vFov d / 2) +
          rnd (real_of_int i * rnd (vFov d / real_of_int (max 1 (channels d - 1)))))"

definition numHorizontalSteps :: "SensorDefinition \<Rightarrow> int" where
  "numHorizontalSteps d = (if hFov d = 360 then 72 else \<lceil>hFov d / 5\<rceil>)"

definition hAngleRad :: "SensorDefinition \<Rightarrow> int \<Rightarrow> real" where
  "hAngleRad d j =
     degToRad (- (hFov d / 2) + real_of_int j * (hFov d / real_of_int (numHorizontalSteps d)))"

definition localDirection :: "real \<Rightarrow> real \<Rightarrow> Vector3" where
  "localDirection v h = \<lparr> vx = sin h * cos v, vy = sin v, vz = cos h * cos v \<rparr>"

definition rayDirection :: "SensorGroup \<Rightarrow> real \<Rightarrow> real \<Rightarrow> Vector3" where
  "rayDirection g v h = normalize (applyQuaternion (quaternion g) (localDirection v h))"

definition rayDistance ::
  "Raycast \<Rightarrow> Object3D list \<Rightarrow> SensorDefinition \<Rightarrow> SensorGroup \<Rightarrow> Vector3 \<Rightarrow> real" where
  "rayDistance raycast collidableObjects d g direction =
     (case intersectObjects raycast (maxRange d) collidableObjects (group_position g) direction of
        [] \<Rightarrow> maxRange d
      | t # _ \<Rightarrow> t)"

text \<open>The body of the inner loop for channel \<open>i\<close> and step \<open>j\<close>; \<open>None\<close> is \<^verbatim>\<open>continue\<close>.\<close>

definition castBeam ::
  "Raycast \<Rightarrow> Object3D list \<Rightarrow> SensorDefinition \<Rightarrow> SensorGroup \<Rightarrow> int \<Rightarrow> int \<Rightarrow> BeamMesh option" where
  "castBeam raycast collidableObjects d g i j =
     (let direction = rayDirection g (vAngleRad d i) (hAngleRad d j);
          distance = rayDistance raycast collidableObjects d g direction;
          beamSpreadAngle = degToRad (if beamLayout d = singlePlane then 1.0 else 0.5);
          radiusBottom = distance * tan beamSpreadAngle
      in if distance < 0.01 then None
         else Some \<lparr> beam_geometry = \<lparr> cone_radius = max 0.01 radiusBottom, cone_height = distance \<rparr>,
                     beam_position = addScaledVector (group_position g) direction (distance / 2),
                     beam_direction = direction \<rparr>)"

text \<open>\<^verbatim>\<open>for (let j = j0; j < n; j++) body\<close> on a state.\<close>

function forLoop :: "int \<Rightarrow> int \<Rightarrow> (int \<Rightarrow> 's \<Rightarrow> 's) \<Rightarrow> 's \<Rightarrow> 's" where
  "forLoop j n body s = (if j < n then forLoop (j + 1) n body (body j s) else s)"
  by pat_completeness auto
termination
  by (relation "measure (\<lambda>(j, n, body, s). nat (n - j))") auto

declare forLoop.simps [simp del]

text \<open>The two nested loops of \<^verbatim>\<open>generateBeamsForSensor\<close>: the children of the new group.\<close>

definition sensorBeams ::
  "Raycast \<Rightarrow> Object3D list \<Rightarrow> SensorDefinition \<Rightarrow> SensorGroup \<Rightarrow> BeamMesh list" where
  "sensorBeams raycast collidableObjects d g =
     forLoop 0 (channels d)
       (\<lambda>i acc. forLoop 0 (numHorizontalSteps d)
          (\<lambda>j acc'. case castBeam raycast collidableObjects d g i j of
                       None \<Rightarrow> acc'
                     | Some beamMesh \<Rightarrow> acc' @ [beamMesh])
          acc)
       []"

text \<open>
  The same loop headers, recording the angles instead of the beams: the vertical angle of
  each channel the outer loop visits, and the horizontal angle of each step the inner loop
  visits.
\<close>

definition channelAngles :: "SensorDefinition \<Rightarrow> real list" where
  "channelAngles d = forLoop 0 (channels d) (\<lambda>i acc. acc @ [vAngleRad d i]) []"

definition horizontalAngles :: "SensorDefinition \<Rightarrow> real list" where
  "horizontalAngles d = forLoop 0 (numHorizontalSteps d) (\<lambda>j acc. acc @ [hAngleRad d j]) []"

definition collidableObjects :: "ObstacleManager \<Rightarrow> WorldManager \<Rightarrow> Object3D list" where
  "collidableObjects om wm =
     map ObstacleObject (getAllObstacles om) @
     (case getFloorPlane wm of None \<Rightarrow> [] | Some fp \<Rightarrow> [FloorObject fp])"

text \<open>
  \<^verbatim>\<open>generateBeamsForSensor\<close>. The source registers the empty group and then fills it
  through the shared reference; the model builds the children first.
\<close>

definition generateBeamsForSensor ::
  "Raycast \<Rightarrow> ObstacleManager \<Rightarrow> WorldManager \<Rightarrow> PlacedSensorData \<Rightarrow> SensorDefinition \<Rightarrow>
   SensorGroup \<Rightarrow> BeamManager \<Rightarrow> BeamManager" where
  "generateBeamsForSensor raycast om wm sensorData d g bm =
     (let bm1 = clearBeamsForSensor (sensor_id sensorData) bm;
          beamGroup = \<lparr> beams_name = ''beams_'' @ sensor_id sensorData,
                        children = sensorBeams raycast (collidableObjects om wm) d g \<rparr>
      in bm1\<lparr> scene := scene bm1 @ [beamGroup],
              beamMeshes := AList.update (sensor_id sensorData) beamGroup (beamMeshes bm1) \<rparr>)"

text \<open>The body of the first \<^verbatim>\<open>forEach\<close> of \<^verbatim>\<open>updateBeams\<close>.\<close>

definition updateSensorBeams ::
  "Raycast \<Rightarrow> SensorManager \<Rightarrow> ObstacleManager \<Rightarrow> WorldManager \<Rightarrow> PlacedSensorData \<Rightarrow>
   BeamManager \<Rightarrow> BeamManager" where
  "updateSensorBeams raycast sm om wm sensorData bm =
     (if \<not> visible sensorData then clearBeamsForSensor (sensor_id sensorData) bm
      else case (getSensorDefinitionById sm (definitionId sensorData),
                 getPlacedSensorById sm (sensor_id sensorData)) of
             (Some d, Some g) \<Rightarrow> generateBeamsForSensor raycast om wm sensorData d g bm
           | _ \<Rightarrow> bm)"

text \<open>
  \<^verbatim>\<open>updateBeams\<close>: the second loop runs over the keys of \<^verbatim>\<open>beamMeshes\<close> and clears the
  entries of sensors that are no longer placed.
\<close>

definition updateBeams ::
  "Raycast \<Rightarrow> SensorManager \<Rightarrow> ObstacleManager \<Rightarrow> WorldManager \<Rightarrow> BeamManager \<Rightarrow> BeamManager" where
  "updateBeams raycast sm om wm bm =
     (let placedSensorsData = getAllPlacedSensorData sm;
          bm1 = fold (updateSensorBeams raycast sm om wm) placedSensorsData bm;
          currentSensorIds = map sensor_id placedSensorsData
      in fold (\<lambda>sensorId b. if sensorId \<notin> set currentSensorIds then clearBeamsForSensor sensorId b
                             else b)
              (map fst (beamMeshes bm1)) bm1)"

text \<open>The \<^verbatim>\<open>distance\<close> variable of the inner loop at channel \<open>i\<close> and step \<open>j\<close>.\<close>

definition sampleDistance ::
  "Raycast \<Rightarrow> Object3D list \<Rightarrow> SensorDefinition \<Rightarrow> SensorGroup \<Rightarrow> int \<Rightarrow> int \<Rightarrow> real" where
  "sampleDistance raycast objs d g i j =
     rayDistance raycast objs d g (rayDirection g (vAngleRad d i) (hAngleRad d j))"

section \<open>Registry invariants and derived notions\<close>

text \<open>
  What the private maps of the obstacle registry satisfy after any sequence of its own
  operations: the keys are distinct (it is a \<^verbatim>\<open>Map\<close>) and every mesh is named by its key.
\<close>

definition wfObstacleManager :: "ObstacleManager \<Rightarrow> bool" where
  "wfObstacleManager om \<longleftrightarrow>
     distinct (map fst (obstacles om)) \<and>
     list_all (\<lambda>(k, m). mesh_name m = k) (obstacles om)"

text \<open>The test \<^verbatim>\<open>addSensor\<close> makes: the \<^verbatim>\<open>definitionId\<close> of the record is in the catalogue.\<close>

definition resolves :: "SensorManager \<Rightarrow> PlacedSensorData \<Rightarrow> bool" where
  "resolves sm d \<longleftrightarrow> map_of (sensorDefinitions sm) (definitionId d) \<noteq> None"

definition notFoundMessage :: "PlacedSensorData \<Rightarrow> string" where
  "notFoundMessage d = ''Sensor definition '' @ definitionId d @ '' not found.''"

text \<open>
  What the private maps of the sensor registry satisfy after any sequence of its own
  operations: distinct keys, every record filed under its own id with a definition that
  resolves, and the group of every record the one built from it.
\<close>

definition wfSensorManager :: "SensorManager \<Rightarrow> bool" where
  "wfSensorManager sm \<longleftrightarrow>
     distinct (map fst (placedSensorData sm)) \<and>
     placedSensors sm = map (\<lambda>(k, d). (k, newSensorGroup d)) (placedSensorData sm) \<and>
     list_all (\<lambda>(k, d). sensor_id d = k \<and> resolves sm d) (placedSensorData sm)"

text \<open>
  What the beam manager keeps true of its own state: distinct keys, the beam groups in the
  scene are the registered ones, and the group of sensor \<open>k\<close> is named \<open>beams_k\<close>.
\<close>

definition wfBeamManager :: "BeamManager \<Rightarrow> bool" where
  "wfBeamManager bm \<longleftrightarrow>
     distinct (map fst (beamMeshes bm)) \<and>
     scene bm = map snd (beamMeshes bm) \<and>
     list_all (\<lambda>(k, g). beams_name g = ''beams_'' @ k) (beamMeshes bm)"

text \<open>
  The group one evaluation registers for a placed sensor, if it registers one: the sensor
  is visible and both its definition and its group are found.
\<close>

definition generatedGroup ::
  "Raycast \<Rightarrow> SensorManager \<Rightarrow> ObstacleManager \<Rightarrow> WorldManager \<Rightarrow> PlacedSensorData \<Rightarrow>
   BeamGroup option" where
  "generatedGroup raycast sm om wm s =
     (if \<not> visible s then None
      else case (getSensorDefinitionById sm (definitionId s),
                 getPlacedSensorById sm (sensor_id s)) of
             (Some d, Some g) \<Rightarrow>
               Some \<lparr> beams_name = ''beams_'' @ sensor_id s,
                      children = sensorBeams raycast (collidableObjects om wm) d g \<rparr>
           | _ \<Rightarrow> None)"

definition generatedEntries ::
  "Raycast \<Rightarrow> SensorManager \<Rightarrow> ObstacleManager \<Rightarrow> WorldManager \<Rightarrow> (string \<times> BeamGroup) list" where
  "generatedEntries raycast sm om wm =
     List.map_filter (\<lambda>s. map_option (Pair (sensor_id s)) (generatedGroup raycast sm om wm s))
       (getAllPlacedSensorData sm)"

text \<open>
  The third way a sensor is skipped: it is visible, but its definition or its group is
  missing, and \<^verbatim>\<open>updateBeams\<close> does nothing for it.
\<close>

definition skipsUntouched :: "SensorManager \<Rightarrow> PlacedSensorData \<Rightarrow> bool" where
  "skipsUntouched sm s \<longleftrightarrow>
     visible s \<and> (getSensorDefinitionById sm (definitionId s) = None \<or>
                  getPlacedSensorById sm (sensor_id s) = None)"

text \<open>
  Either the group is still registered for the sensor, or all its geometries have been
  disposed.
\<close>

definition disposedOrHeld :: "string \<Rightarrow> BeamGroup \<Rightarrow> BeamManager \<Rightarrow> bool" where
  "disposedOrHeld k g bm \<longleftrightarrow>
     map_of (beamMeshes bm) k = Some g \<or>
     set (map beam_geometry (children g)) \<subseteq> set (disposed bm)"

definition qnorm2 :: "Quaternion \<Rightarrow> real" where
  "qnorm2 q = qx q * qx q + qy q * qy q + qz q * qz q + qw q * qw q"

section \<open>Example data\<close>

definition exampleDefinition :: SensorDefinition where
  "exampleDefinition =
     \<lparr> definition_id = ''vlp16'', displayName = ''VLP-16'', hFov = 360, vFov = 30,
       maxRange = 20, channels = 16, beamLayout = verticalEven, modelFile = ''vlp16.glb'' \<rparr>"

text \<open>The managers as their constructors leave them.\<close>

definition emptySensorManager :: SensorManager where
  "emptySensorManager =
     \<lparr> sensorDefinitions = [], placedSensors = [], placedSensorData = [], sensorConsole = [] \<rparr>"

definition emptyObstacleManager :: ObstacleManager where
  "emptyObstacleManager = \<lparr> obstacles = [], obstacleConsole = [] \<rparr>"

definition emptyWorldManager :: WorldManager where
  "emptyWorldManager = \<lparr> floorPlane = None, worldDimensions = None \<rparr>"

definition emptyBeamManager :: BeamManager where
  "emptyBeamManager = \<lparr> beamMeshes = [], scene = [], disposed = [] \<rparr>"

definition exampleSensor :: PlacedSensorData where
  "exampleSensor =
     \<lparr> sensor_id = ''sen-1'', definitionId = ''vlp16'',
       sensor_position = \<lparr> vx = 5, vy = 1/2, vz = 0 \<rparr>,
       rotation = \<lparr> roll = 0, pitch = 0, yaw = 90 \<rparr>, visible = True \<rparr>"

definition exampleObstacle :: ObstacleData where
  "exampleObstacle =
     \<lparr> obstacle_id = ''obs-1'', obstacle_position = \<lparr> vx = 5, vy = 1/2, vz = 5 \<rparr>,
       dimensions = \<lparr> width = 1, height = 1, depth = 1 \<rparr> \<rparr>"

text \<open>A catalogue of one definition with a visible and a hidden sensor placed.\<close>

definition exampleSensors :: SensorManager where
  "exampleSensors =
     addSensor (exampleSensor\<lparr> sensor_id := ''sen-2'', visible := False \<rparr>)
       (addSensor exampleSensor
          (emptySensorManager\<lparr> sensorDefinitions := [(''vlp16'', exampleDefinition)] \<rparr>))"

definition exampleObstacles :: ObstacleManager where
  "exampleObstacles = addObstacle exampleObstacle emptyObstacleManager"

definition exampleWorld :: WorldManager where
  "exampleWorld =
     initWorld \<lparr> xMin = 0, xMax = 30, yMin = 0, yMax = 5, zMin = 0, zMax = 30 \<rparr> emptyWorldManager"

text \<open>A ray that meets every obstacle at 4.5 and the floor at 30, and one that meets
  everything at 0.005.\<close>

definition exampleRaycast :: Raycast where
  "exampleRaycast ob origin direction =
     (case ob of ObstacleObject _ \<Rightarrow> [9/2] | FloorObject _ \<Rightarrow> [30])"

definition nearRaycast :: Raycast where
  "nearRaycast ob origin direction = [1/200]"

definition exampleBeamGroup :: "string \<Rightarrow> BeamGroup" where
  "exampleBeamGroup k =
     \<lparr> beams_name = ''beams_'' @ k,
       children = [\<lparr> beam_geometry = \<lparr> cone_radius = 1/10, cone_height = 9/2 \<rparr>,
                     beam_position = \<lparr> vx = 5, vy = 1/2, vz = 9/4 \<rparr>,
                     beam_direction = \<lparr> vx = 0, vy = 0, vz = 1 \<rparr> \<rparr>] \<rparr>"

text \<open>Beam groups left from an earlier evaluation for three sensor ids.\<close>

definition earlierBeams :: BeamManager where
  "earlierBeams =
     \<lparr> beamMeshes = [(''sen-1'', exampleBeamGroup ''sen-1''), (''sen-2'', exampleBeamGroup ''sen-2''),
                     (''sen-3'', exampleBeamGroup ''sen-3'')],
       scene = [exampleBeamGroup ''sen-1'', exampleBeamGroup ''sen-2'', exampleBeamGroup ''sen-3''],
       disposed = [] \<rparr>"

text \<open>A registry state in which the definition of a visible placed sensor is missing.\<close>

definition orphanSensors :: SensorManager where
  "orphanSensors =
     \<lparr> sensorDefinitions = [],
       placedSensors = [(''sen-1'', newSensorGroup exampleSensor)],
       placedSensorData = [(''sen-1'', exampleSensor)],
       sensorConsole = [] \<rparr>"

section \<open>The loops as list functions\<close>

lemma forLoop_fold: "forLoop j n body s = fold body [j..n - 1] s"
proof (induction j n body s rule: forLoop.induct)
  case (1 j n body s)
  show ?case
  proof (cases "j < n")
    case True
    then have "[j..n - 1] = j # [j + 1..n - 1]" by (simp add: upto_rec1)
    with True 1 show ?thesis by (subst forLoop.simps) simp
  next
    case False
    then show ?thesis by (subst forLoop.simps) simp
  qed
qed

lemma fold_snoc_map: "fold (\<lambda>k acc. acc @ [f k]) xs acc = acc @ map f xs"
  by (induction xs arbitrary: acc) auto

lemma fold_snoc_map_filter:
  "fold (\<lambda>k acc. case g k of None \<Rightarrow> acc | Some m \<Rightarrow> acc @ [m]) xs acc =
   acc @ List.map_filter g xs"
  by (induction xs arbitrary: acc) (auto simp: List.map_filter_simps split: option.splits)

lemma fold_append_concat: "fold (\<lambda>k acc. acc @ f k) xs acc = acc @ concat (map f xs)"
  by (induction xs arbitrary: acc) auto

lemma channelAngles_map: "channelAngles d = map (vAngleRad d) [0..channels d - 1]"
  by (simp add: channelAngles_def forLoop_fold fold_snoc_map)

lemma horizontalAngles_map:
  "horizontalAngles d = map (hAngleRad d) [0..numHorizontalSteps d - 1]"
  by (simp add: horizontalAngles_def forLoop_fold fold_snoc_map)

lemma length_horizontalAngles: "length (horizontalAngles d) = nat (numHorizontalSteps d)"
  by (simp add: horizontalAngles_map)

lemma sensorBeams_concat:
  "sensorBeams rc objs d g =
   concat (map (\<lambda>i. List.map_filter (castBeam rc objs d g i) [0..numHorizontalSteps d - 1])
               [0..channels d - 1])"
  unfolding sensorBeams_def forLoop_fold fold_snoc_map_filter
  by (simp add: fold_append_concat)

lemma set_sensorBeams:
  "b \<in> set (sensorBeams rc objs d g) \<longleftrightarrow>
   (\<exists>i j. 0 \<le> i \<and> i < channels d \<and> 0 \<le> j \<and> j < numHorizontalSteps d \<and>
          castBeam rc objs d g i j = Some b)"
proof -
  have "b \<in> set (List.map_filter f xs) \<longleftrightarrow> (\<exists>x \<in> set xs. f x = Some b)" for f :: "int \<Rightarrow> BeamMesh option" and xs
    by (induction xs) (auto simp: List.map_filter_simps split: option.splits)
  then have "b \<in> set (sensorBeams rc objs d g) \<longleftrightarrow>
             (\<exists>i \<in> {0..channels d - 1}. \<exists>j \<in> {0..numHorizontalSteps d - 1}.
                castBeam rc objs d g i j = Some b)"
    by (simp add: sensorBeams_concat)
  also have "\<dots> \<longleftrightarrow> (\<exists>i j. 0 \<le> i \<and> i < channels d \<and> 0 \<le> j \<and> j < numHorizontalSteps d \<and>
                          castBeam rc objs d g i j = Some b)"
    by (simp add: Bex_def)
  finally show ?thesis .
qed

lemma castBeam_Some:
  assumes "castBeam rc objs d g i j = Some b"
  shows "beam_direction b = rayDirection g (vAngleRad d i) (hAngleRad d j)"
    and "cone_height (beam_geometry b) = sampleDistance rc objs d g i j"
    and "\<not> sampleDistance rc objs d g i j < 0.01"
  using assms by (auto simp: castBeam_def sampleDistance_def Let_def split: if_splits)

lemma castBeam_None: "castBeam rc objs d g i j = None \<longleftrightarrow> sampleDistance rc objs d g i j < 0.01"
  by (simp add: castBeam_def sampleDistance_def Let_def)

section \<open>The sampling grid\<close>

text \<open>
  C3, as the code has it. The inner loop visits \<open>numHorizontalSteps\<close> steps, 72 when
  \<open>hFov = 360\<close> and the ceiling of \<open>hFov / 5\<close> otherwise; the code takes no maximum with 1,
  so there is a first sample exactly when \<open>hFov\<close> is positive, and a non-positive \<open>hFov\<close>
  gives no sample. \<open>hFov = 180\<close> gives 36 samples.
\<close>

theorem horizontal_sample_count:
  "length (horizontalAngles d) = (if hFov d = 360 then 72 else nat \<lceil>hFov d / 5\<rceil>) \<and>
   (1 \<le> length (horizontalAngles d) \<longleftrightarrow> 0 < hFov d) \<and>
   (hFov d = 180 \<longrightarrow> length (horizontalAngles d) = 36)"
proof -
  have "length (horizontalAngles d) = (if hFov d = 360 then 72 else nat \<lceil>hFov d / 5\<rceil>)"
    by (simp add: length_horizontalAngles numHorizontalSteps_def)
  moreover have "1 \<le> length (horizontalAngles d) \<longleftrightarrow> 0 < hFov d"
    by (simp add: length_horizontalAngles numHorizontalSteps_def) linarith
  moreover have "hFov d = 180 \<longrightarrow> length (horizontalAngles d) = 36"
    by (simp add: length_horizontalAngles numHorizontalSteps_def)
  ultimately show ?thesis by blast
qed

theorem horizontal_sample_count_witness:
  "length (horizontalAngles (exampleDefinition\<lparr> hFov := 180 \<rparr>)) = 36 \<and>
   1 \<le> length (horizontalAngles (exampleDefinition\<lparr> hFov := 180 \<rparr>))"
  using horizontal_sample_count [of "exampleDefinition\<lparr> hFov := 180 \<rparr>"]
  by (simp add: exampleDefinition_def)

text \<open>
  C3 as the specification words it ("with at least 1 sample") fails for a definition with
  \<open>hFov = 0\<close>: the ceiling of \<open>0 / 5\<close> is 0 and the inner loop does not run.
\<close>

theorem horizontal_sample_count_counterexample:
  "\<not> 1 \<le> length (horizontalAngles (exampleDefinition\<lparr> hFov := 0 \<rparr>))"
  by (simp add: length_horizontalAngles numHorizontalSteps_def exampleDefinition_def)

lemma vAngleRad_verticalEven:
  assumes "beamLayout d = verticalEven" and "1 < channels d"
  shows "vAngleRad d i =
         degToRad (- (vFov d / 2) + real_of_int i * (vFov d / real_of_int (channels d - 1)))"
  using assms by (simp add: vAngleRad_def vAngleStep_def)

section \<open>Double rounding\<close>

lemma binade_eqI:
  assumes "2 powi e \<le> \<bar>x\<bar>" and "\<bar>x\<bar> < 2 powi (e + 1)"
  shows "binade x = e"
proof -
  have "(0::real) < 2 powi e" by simp
  with assms(1) have pos: "0 < \<bar>x\<bar>" by linarith
  have a: "(2::real) powr real_of_int e = 2 powi e"
    by (rule powr_real_of_int') simp_all
  have "(2::real) powr real_of_int (e + 1) = 2 powi (e + 1)"
    by (rule powr_real_of_int') simp_all
  then have b: "(2::real) powr real_of_int (e + 1) = 2 powi (e + 1)" .
  have le: "2 powr real_of_int e \<le> \<bar>x\<bar>" using assms(1) by (simp only: a)
  have lt: "\<bar>x\<bar> < 2 powr real_of_int (e + 1)" using assms(2) by (simp only: b)
  have "\<lfloor>log 2 \<bar>x\<bar>\<rfloor> = e"
    by (rule floor_log_eq_powr_iff [THEN iffD2, OF pos _ conjI [OF le lt]]) simp
  then show ?thesis by (simp add: binade_def)
qed

lemma toDouble_normal:
  assumes "2 powi e \<le> \<bar>x\<bar>" and "\<bar>x\<bar> < 2 powi (e + 1)" and "- 1022 \<le> e"
  shows "toDouble x = real_of_int (roundHalfEven (x / 2 powi (e - 52))) * 2 powi (e - 52)"
proof -
  have p: "(0::real) < 2 powi e" by simp
  have "x \<noteq> 0"
  proof
    assume "x = 0"
    with assms(1) have "(2::real) powi e \<le> 0" by simp
    with p show False by linarith
  qed
  then show ?thesis
    using assms(3) by (simp add: toDouble_def binade_eqI [OF assms(1,2)] max_def Let_def)
qed

lemma toDouble_31_15: "toDouble (31/15) = 4653719614949513 / 2 ^ 51"
  by (subst toDouble_normal [of 1]) (simp_all add: roundHalfEven_def power_int_minus_divide)

lemma toDouble_31_2: "toDouble (31/2) = 31/2"
  by (subst toDouble_normal [of 3]) (simp_all add: roundHalfEven_def power_int_minus_divide)

lemma toDouble_15_step: "toDouble (15 * (4653719614949513 / 2 ^ 51)) = 31 + 1 / 2 ^ 48"
  by (subst toDouble_normal [of 4]) (simp_all add: roundHalfEven_def power_int_minus_divide)

lemma toDouble_top: "toDouble (- (31/2) + (31 + 1 / 2 ^ 48)) = 31/2 + 1 / 2 ^ 48"
  by (subst toDouble_normal [of 3]) (simp_all add: roundHalfEven_def power_int_minus_divide)

lemma roundHalfEven_of_int: "roundHalfEven (real_of_int n) = n"
  by (simp add: roundHalfEven_def)

lemma roundHalfEven_minus: "roundHalfEven (- y) = - roundHalfEven y"
proof (cases "real_of_int \<lfloor>y\<rfloor> = y")
  case True
  then have "roundHalfEven y = \<lfloor>y\<rfloor>" by (metis roundHalfEven_of_int)
  moreover have "- y = - real_of_int \<lfloor>y\<rfloor>" by (simp only: True)
  then have "- y = real_of_int (- \<lfloor>y\<rfloor>)" by (simp only: of_int_minus)
  then have "roundHalfEven (- y) = - \<lfloor>y\<rfloor>" by (metis roundHalfEven_of_int)
  ultimately show ?thesis by simp
next
  case False
  then have c: "\<lceil>y\<rceil> = \<lfloor>y\<rfloor> + 1" by (simp add: ceiling_altdef)
  have f: "\<lfloor>- y\<rfloor> = - \<lfloor>y\<rfloor> - 1" using c by (simp add: ceiling_def)
  have r: "0 < y - real_of_int \<lfloor>y\<rfloor>" using False by (smt (verit) of_int_floor_le)
  show ?thesis
    unfolding roundHalfEven_def Let_def f using r by (auto simp: field_simps)
qed

lemma binade_minus: "binade (- x) = binade x"
  by (simp add: binade_def)

lemma toDouble_minus: "toDouble (- x) = - toDouble x"
  by (simp add: toDouble_def Let_def binade_minus roundHalfEven_minus)

lemma toDouble_zero: "toDouble 0 = 0"
  by (simp add: toDouble_def)

lemma vAngleRad_rounded:
  assumes "beamLayout d = verticalEven" and "channels d \<noteq> 1"
  shows "vAngleRad d i = degToRad (vAngleDegRounded (\<lambda>x. x) d i)"
  using assms by (simp add: vAngleRad_def vAngleStep_def vAngleDegRounded_def)

lemma lowest_angle_double:
  assumes "toDouble (vFov d / 2) = vFov d / 2"
  shows "vAngleDegRounded toDouble d 0 = - (vFov d / 2)"
proof -
  have "vAngleDegRounded toDouble d 0 = toDouble (- toDouble (vFov d / 2) + toDouble 0)"
    by (simp add: vAngleDegRounded_def)
  also have "\<dots> = toDouble (- (vFov d / 2))"
    by (simp only: assms toDouble_zero add_0_right)
  also have "\<dots> = - toDouble (vFov d / 2)" by (rule toDouble_minus)
  also have "\<dots> = - (vFov d / 2)" by (simp only: assms)
  finally show ?thesis .
qed

lemma top_angle_31: "vAngleDegRounded toDouble (exampleDefinition\<lparr> vFov := 31 \<rparr>) 15 = 31/2 + 1 / 2 ^ 48"
proof -
  let ?d = "exampleDefinition\<lparr> vFov := 31 \<rparr>"
  have v: "vFov ?d = 31" "real_of_int (max 1 (channels ?d - 1)) = 15"
    by (simp_all add: exampleDefinition_def)
  have "vAngleDegRounded toDouble ?d 15 =
        toDouble (- toDouble (31/2) + toDouble (15 * toDouble (31/15)))"
    unfolding vAngleDegRounded_def v by simp
  also have "\<dots> = toDouble (- (31/2) + toDouble (15 * (4653719614949513 / 2 ^ 51)))"
    by (simp only: toDouble_31_15 toDouble_31_2)
  also have "\<dots> = toDouble (- (31/2) + (31 + 1 / 2 ^ 48))"
    by (simp only: toDouble_15_step)
  also have "\<dots> = 31/2 + 1 / 2 ^ 48" by (rule toDouble_top)
  finally show ?thesis .
qed

section \<open>Vertical angles\<close>

text \<open>
  C4, as the code has it. With layout \<open>verticalEven\<close> and more than one channel, channel \<open>i\<close>
  has the vertical angle \<open>- vFov / 2 + i * (vFov / (channels - 1))\<close> (in degrees, converted
  to radians). In exact arithmetic the outer loop visits \<open>channels\<close> angles, the first
  \<open>- vFov / 2\<close>, the last \<open>vFov / 2\<close>, any two neighbours \<open>vFov / (channels - 1)\<close> apart. These
  are the angles of the rays cast: every emitted beam points along the direction built
  from the angle of a channel of the grid, and every ray of the grid that is not skipped
  has such a beam. With every operation rounded to a double, as the program computes,
  the lowest angle is still exactly \<open>- vFov / 2\<close> when \<open>vFov / 2\<close> is a double.
\<close>

theorem vertical_even_angles:
  assumes "beamLayout d = verticalEven" and "1 < channels d"
  shows "(\<forall>i. vAngleRad d i =
              degToRad (- (vFov d / 2) + real_of_int i * (vFov d / real_of_int (channels d - 1)))) \<and>
         (\<forall>i. vAngleRad d i = degToRad (vAngleDegRounded (\<lambda>x. x) d i)) \<and>
         channelAngles d =
           map (\<lambda>i. degToRad (- (vFov d / 2) +
                               real_of_int i * (vFov d / real_of_int (channels d - 1))))
               [0..channels d - 1] \<and>
         length (channelAngles d) = nat (channels d) \<and>
         hd (channelAngles d) = degToRad (- (vFov d / 2)) \<and>
         last (channelAngles d) = degToRad (vFov d / 2) \<and>
         (\<forall>k. Suc k < nat (channels d) \<longrightarrow>
              channelAngles d ! Suc k - channelAngles d ! k =
              degToRad (vFov d / real_of_int (channels d - 1))) \<and>
         (\<forall>b \<in> set (sensorBeams rc objs d g).
            \<exists>i j. 0 \<le> i \<and> i < channels d \<and> 0 \<le> j \<and> j < numHorizontalSteps d \<and>
                  beam_direction b =
                  rayDirection g
                    (degToRad (- (vFov d / 2) +
                               real_of_int i * (vFov d / real_of_int (channels d - 1))))
                    (hAngleRad d j)) \<and>
         (\<forall>i j. 0 \<le> i \<and> i < channels d \<and> 0 \<le> j \<and> j < numHorizontalSteps d \<and>
                \<not> sampleDistance rc objs d g i j < 0.01 \<longrightarrow>
                (\<exists>b \<in> set (sensorBeams rc objs d g).
                   beam_direction b =
                   rayDirection g
                     (degToRad (- (vFov d / 2) +
                                real_of_int i * (vFov d / real_of_int (channels d - 1))))
                     (hAngleRad d j))) \<and>
         (toDouble (vFov d / 2) = vFov d / 2 \<longrightarrow>
            vAngleDegRounded toDouble d 0 = - (vFov d / 2))"
proof -
  let ?f = "\<lambda>i. degToRad (- (vFov d / 2) +
                           real_of_int i * (vFov d / real_of_int (channels d - 1)))"
  have va: "vAngleRad d i = ?f i" for i
    by (rule vAngleRad_verticalEven [OF assms])
  have vr: "vAngleRad d i = degToRad (vAngleDegRounded (\<lambda>x. x) d i)" for i
    using assms by (intro vAngleRad_rounded) auto
  have m: "channelAngles d = map ?f [0..channels d - 1]"
    by (simp add: channelAngles_map va)
  have ne: "[0..channels d - 1] \<noteq> []" using assms by simp
  have h: "hd [0..channels d - 1] = 0" using assms by (simp add: upto_rec1)
  have l: "last [0..channels d - 1] = channels d - 1" using assms by (simp add: upto_rec2)
  have len: "length (channelAngles d) = nat (channels d)" by (simp add: m)
  have first: "hd (channelAngles d) = degToRad (- (vFov d / 2))"
    using ne h by (simp add: m hd_map)
  have nz: "real_of_int (channels d - 1) \<noteq> 0" using assms by simp
  have full: "real_of_int (channels d - 1) * (vFov d / real_of_int (channels d - 1)) = vFov d"
    using nz by simp
  have "last (channelAngles d) = ?f (channels d - 1)"
    using ne l by (simp add: m last_map)
  also have "\<dots> = degToRad (vFov d / 2)"
    by (simp only: full) simp
  finally have final: "last (channelAngles d) = degToRad (vFov d / 2)" .
  have sp: "channelAngles d ! Suc k - channelAngles d ! k =
            degToRad (vFov d / real_of_int (channels d - 1))"
    if "Suc k < nat (channels d)" for k
  proof -
    have e: "channelAngles d ! Suc k = ?f (int (Suc k))" "channelAngles d ! k = ?f (int k)"
      using that by (simp_all add: m)
    show ?thesis
      unfolding e by (simp add: degToRad_def algebra_simps add_divide_distrib)
  qed
  have emitted: "\<exists>i j. 0 \<le> i \<and> i < channels d \<and> 0 \<le> j \<and> j < numHorizontalSteps d \<and>
                  beam_direction b = rayDirection g (?f i) (hAngleRad d j)"
    if "b \<in> set (sensorBeams rc objs d g)" for b
  proof -
    from that obtain i j where r: "0 \<le> i" "i < channels d" "0 \<le> j" "j < numHorizontalSteps d"
      and c: "castBeam rc objs d g i j = Some b"
      unfolding set_sensorBeams by blast
    from castBeam_Some(1) [OF c] have "beam_direction b = rayDirection g (?f i) (hAngleRad d j)"
      by (simp only: va)
    with r show ?thesis by blast
  qed
  have cast: "\<exists>b \<in> set (sensorBeams rc objs d g).
                 beam_direction b = rayDirection g (?f i) (hAngleRad d j)"
    if r: "0 \<le> i \<and> i < channels d \<and> 0 \<le> j \<and> j < numHorizontalSteps d \<and>
           \<not> sampleDistance rc objs d g i j < 0.01" for i j
  proof -
    from r have "castBeam rc objs d g i j \<noteq> None" by (simp add: castBeam_None)
    then obtain b where c: "castBeam rc objs d g i j = Some b" by blast
    with r have "b \<in> set (sensorBeams rc objs d g)" unfolding set_sensorBeams by blast
    moreover from castBeam_Some(1) [OF c]
    have "beam_direction b = rayDirection g (?f i) (hAngleRad d j)" by (simp only: va)
    ultimately show ?thesis by blast
  qed
  have low: "vAngleDegRounded toDouble d 0 = - (vFov d / 2)"
    if "toDouble (vFov d / 2) = vFov d / 2"
    by (rule lowest_angle_double [OF that])
  show ?thesis
    apply (intro conjI allI impI ballI)
    subgoal by (rule va)
    subgoal by (rule vr)
    subgoal by (rule m)
    subgoal by (rule len)
    subgoal by (rule first)
    subgoal by (rule final)
    subgoal by (rule sp)
    subgoal by (rule emitted)
    subgoal by (rule cast)
    subgoal by (rule low)
    done
qed

theorem vertical_even_angles_witness:
  "beamLayout exampleDefinition = verticalEven \<and> 1 < channels exampleDefinition \<and>
   length (channelAngles exampleDefinition) = 16 \<and>
   hd (channelAngles exampleDefinition) = degToRad (- 15) \<and>
   last (channelAngles exampleDefinition) = degToRad 15 \<and>
   vAngleDegRounded toDouble exampleDefinition 0 = - 15"
proof -
  have v: "beamLayout exampleDefinition = verticalEven" "1 < channels exampleDefinition"
    by (simp_all add: exampleDefinition_def)
  have half: "vFov exampleDefinition / 2 = 15" by (simp add: exampleDefinition_def)
  have "toDouble 15 = 15"
    by (subst toDouble_normal [of 3]) (simp_all add: roundHalfEven_def power_int_minus_divide)
  then have r: "toDouble (vFov exampleDefinition / 2) = vFov exampleDefinition / 2"
    by (simp only: half)
  note t = vertical_even_angles [OF v, of exampleRaycast "[]" "newSensorGroup exampleSensor"]
  from t have "length (channelAngles exampleDefinition) = nat (channels exampleDefinition)"
    and "hd (channelAngles exampleDefinition) = degToRad (- (vFov exampleDefinition / 2))"
    and "last (channelAngles exampleDefinition) = degToRad (vFov exampleDefinition / 2)"
    and "toDouble (vFov exampleDefinition / 2) = vFov exampleDefinition / 2 \<longrightarrow>
         vAngleDegRounded toDouble exampleDefinition 0 = - (vFov exampleDefinition / 2)"
    by blast+
  moreover have "nat (channels exampleDefinition) = 16"
    by (simp add: exampleDefinition_def)
  ultimately show ?thesis using v r by (simp add: half)
qed

text \<open>
  C4 as the specification words it has the angles span exactly up to \<open>vFov / 2\<close>. In the
  doubles of the program they need not: for \<open>vFov = 31\<close> and 16 channels the quotient
  \<open>31 / 15\<close> is rounded up, 15 times it is rounded to \<open>31 + 2\<^sup>-\<^sup>4\<^sup>8\<close>, and the angle of the top
  channel is \<open>15.5 + 2\<^sup>-\<^sup>4\<^sup>8\<close> degrees, not 15.5.
\<close>

theorem vertical_even_angles_counterexample:
  "beamLayout (exampleDefinition\<lparr> vFov := 31 \<rparr>) = verticalEven \<and>
   channels (exampleDefinition\<lparr> vFov := 31 \<rparr>) = 16 \<and>
   toDouble (vFov (exampleDefinition\<lparr> vFov := 31 \<rparr>)) = 31 \<and>
   vAngleDegRounded toDouble (exampleDefinition\<lparr> vFov := 31 \<rparr>) 15 = 31/2 + 1 / 2 ^ 48 \<and>
   vAngleDegRounded toDouble (exampleDefinition\<lparr> vFov := 31 \<rparr>) 15 \<noteq>
     vFov (exampleDefinition\<lparr> vFov := 31 \<rparr>) / 2"
proof -
  have "toDouble 31 = 31"
    by (subst toDouble_normal [of 4]) (simp_all add: roundHalfEven_def power_int_minus_divide)
  then show ?thesis
    by (simp add: top_angle_31) (simp add: exampleDefinition_def)
qed

text \<open>
  C5. With a single channel the vertical angle of every ray is 0 whatever the layout, and
  with layout \<open>singlePlane\<close> it is 0 whatever the channel count: the angle computed for
  every channel index is 0, the outer loop visits only the angle 0, and every beam the
  sensor emits points along a direction built with vertical angle 0.
\<close>

theorem flat_vertical_angle:
  assumes "channels d = 1 \<or> beamLayout d = singlePlane"
  shows "(\<forall>i. vAngleRad d i = 0) \<and>
         (\<forall>a \<in> set (channelAngles d). a = 0) \<and>
         (\<forall>b \<in> set (sensorBeams rc objs d g).
            \<exists>j. 0 \<le> j \<and> j < numHorizontalSteps d \<and>
                beam_direction b = rayDirection g 0 (hAngleRad d j))"
proof -
  have z: "vAngleRad d i = 0" for i
    using assms by (auto simp: vAngleRad_def)
  have "\<exists>j. 0 \<le> j \<and> j < numHorizontalSteps d \<and>
            beam_direction b = rayDirection g 0 (hAngleRad d j)"
    if "b \<in> set (sensorBeams rc objs d g)" for b
  proof -
    from that obtain i j where j: "0 \<le> j" "j < numHorizontalSteps d"
      and c: "castBeam rc objs d g i j = Some b"
      unfolding set_sensorBeams by blast
    from castBeam_Some(1) [OF c] have "beam_direction b = rayDirection g 0 (hAngleRad d j)"
      by (simp add: z)
    with j show ?thesis by blast
  qed
  then show ?thesis by (auto simp: z channelAngles_map)
qed

theorem flat_vertical_angle_witness:
  "(\<forall>i. vAngleRad (exampleDefinition\<lparr> channels := 1 \<rparr>) i = 0) \<and>
   (\<forall>i. vAngleRad (exampleDefinition\<lparr> beamLayout := singlePlane \<rparr>) i = 0)"
  using flat_vertical_angle [of "exampleDefinition\<lparr> channels := 1 \<rparr>"]
        flat_vertical_angle [of "exampleDefinition\<lparr> beamLayout := singlePlane \<rparr>"]
  by (simp add: exampleDefinition_def)

section \<open>Resolving the distance of a ray\<close>

lemma set_intersectObjects:
  "set (intersectObjects rc far objs origin dir) =
   {t. (\<exists>ob \<in> set objs. t \<in> set (rc ob origin dir)) \<and> 0 \<le> t \<and> t \<le> far}"
  by (auto simp: intersectObjects_def)

lemma sorted_intersectObjects: "sorted (intersectObjects rc far objs origin dir)"
  by (simp add: intersectObjects_def)

lemma set_collidableObjects:
  "set (collidableObjects om wm) =
   ObstacleObject ` snd ` set (obstacles om) \<union>
   (case floorPlane wm of None \<Rightarrow> {} | Some fp \<Rightarrow> {FloorObject fp})"
  by (auto simp: collidableObjects_def getAllObstacles_def getFloorPlane_def split: option.splits)

lemma rayDistance_nearest:
  assumes "\<exists>ob \<in> set objs. t \<in> set (rc ob (group_position g) dir)" "0 \<le> t" "t \<le> maxRange d"
    and "\<forall>ob \<in> set objs. \<forall>u \<in> set (rc ob (group_position g) dir). 0 \<le> u \<longrightarrow> t \<le> u"
  shows "rayDistance rc objs d g dir = t"
proof -
  let ?xs = "intersectObjects rc (maxRange d) objs (group_position g) dir"
  have tin: "t \<in> set ?xs" using assms by (simp add: set_intersectObjects)
  then obtain a rest where xs: "?xs = a # rest" by (cases ?xs) auto
  have "a \<in> set ?xs" by (simp add: xs)
  then have "t \<le> a" using assms(4) by (auto simp: set_intersectObjects)
  moreover have "a \<le> t"
    using sorted_intersectObjects [of rc "maxRange d" objs "group_position g" dir] tin
    by (auto simp: xs)
  ultimately show ?thesis by (simp add: rayDistance_def xs)
qed

lemma rayDistance_miss:
  assumes "\<forall>ob \<in> set objs. \<forall>u \<in> set (rc ob (group_position g) dir). u < 0 \<or> maxRange d < u"
  shows "rayDistance rc objs d g dir = maxRange d"
proof -
  let ?xs = "intersectObjects rc (maxRange d) objs (group_position g) dir"
  have "False" if "t \<in> set ?xs" for t
  proof -
    from that obtain ob where "ob \<in> set objs" "t \<in> set (rc ob (group_position g) dir)"
      "0 \<le> t" "t \<le> maxRange d"
      by (auto simp: set_intersectObjects)
    with assms show False by fastforce
  qed
  then have "?xs = []" by (cases ?xs) auto
  then show ?thesis by (simp add: rayDistance_def)
qed

text \<open>
  C1. The collidable set is every obstacle and, when the world has one, the floor plane.
  For a ray from the position of the sensor group: when the nearest intersection with the
  collidable set (the least non-negative distance at which the ray meets one of its
  objects) is \<open>t\<close> and \<open>t < maxRange\<close>, the resolved distance is \<open>t\<close>; when no intersection
  lies within \<open>maxRange\<close>, the resolved distance is \<open>maxRange\<close>. The height of every emitted
  beam is the distance resolved along its own direction.
\<close>

theorem nearest_hit_or_max_range:
  "set (collidableObjects om wm) =
     ObstacleObject ` snd ` set (obstacles om) \<union>
     (case floorPlane wm of None \<Rightarrow> {} | Some fp \<Rightarrow> {FloorObject fp}) \<and>
   (\<forall>t. (\<exists>ob \<in> set (collidableObjects om wm). t \<in> set (rc ob (group_position g) dir)) \<and>
        0 \<le> t \<and> t < maxRange d \<and>
        (\<forall>ob \<in> set (collidableObjects om wm). \<forall>u \<in> set (rc ob (group_position g) dir).
            0 \<le> u \<longrightarrow> t \<le> u) \<longrightarrow>
        rayDistance rc (collidableObjects om wm) d g dir = t) \<and>
   ((\<forall>ob \<in> set (collidableObjects om wm). \<forall>u \<in> set (rc ob (group_position g) dir).
        u < 0 \<or> maxRange d < u) \<longrightarrow>
    rayDistance rc (collidableObjects om wm) d g dir = maxRange d) \<and>
   (\<forall>b. castBeam rc (collidableObjects om wm) d g i j = Some b \<longrightarrow>
        cone_height (beam_geometry b) =
        rayDistance rc (collidableObjects om wm) d g (beam_direction b))"
proof -
  have hit: "rayDistance rc (collidableObjects om wm) d g dir = t"
    if "\<exists>ob \<in> set (collidableObjects om wm). t \<in> set (rc ob (group_position g) dir)"
      "0 \<le> t" "t < maxRange d"
      "\<forall>ob \<in> set (collidableObjects om wm). \<forall>u \<in> set (rc ob (group_position g) dir).
          0 \<le> u \<longrightarrow> t \<le> u" for t
    using that by (intro rayDistance_nearest) auto
  have beam: "cone_height (beam_geometry b) =
              rayDistance rc (collidableObjects om wm) d g (beam_direction b)"
    if "castBeam rc (collidableObjects om wm) d g i j = Some b" for b
    using castBeam_Some [OF that] by (simp add: sampleDistance_def)
  show ?thesis
    using hit beam rayDistance_miss [of "collidableObjects om wm" rc g dir d]
      set_collidableObjects [of om wm]
    by blast
qed

theorem nearest_hit_or_max_range_witness:
  "rayDistance exampleRaycast (collidableObjects exampleObstacles exampleWorld) exampleDefinition
     (newSensorGroup exampleSensor) \<lparr> vx = 0, vy = 0, vz = 1 \<rparr> = 9/2 \<and>
   rayDistance exampleRaycast (collidableObjects emptyObstacleManager exampleWorld) exampleDefinition
     (newSensorGroup exampleSensor) \<lparr> vx = 0, vy = 0, vz = 1 \<rparr> = 20"
proof -
  have objs: "collidableObjects exampleObstacles exampleWorld =
        [ObstacleObject (newObstacleMesh exampleObstacle),
         FloorObject \<lparr> plane_sizeX = 30, plane_sizeZ = 30,
                       plane_position = \<lparr> vx = 15, vy = 0, vz = 15 \<rparr> \<rparr>]"
    by (simp add: collidableObjects_def exampleObstacles_def exampleWorld_def addObstacle_def
        emptyObstacleManager_def emptyWorldManager_def initWorld_def getAllObstacles_def
        getFloorPlane_def exampleObstacle_def Let_def)
  have objs': "collidableObjects emptyObstacleManager exampleWorld =
        [FloorObject \<lparr> plane_sizeX = 30, plane_sizeZ = 30,
                       plane_position = \<lparr> vx = 15, vy = 0, vz = 15 \<rparr> \<rparr>]"
    by (simp add: collidableObjects_def exampleWorld_def
        emptyObstacleManager_def emptyWorldManager_def initWorld_def getAllObstacles_def
        getFloorPlane_def Let_def)
  note hit = nearest_hit_or_max_range [of exampleObstacles exampleWorld exampleRaycast
        "newSensorGroup exampleSensor" "\<lparr> vx = 0, vy = 0, vz = 1 \<rparr>" exampleDefinition,
        THEN conjunct2, THEN conjunct1, rule_format, of "9/2"]
  have one: "rayDistance exampleRaycast (collidableObjects exampleObstacles exampleWorld)
       exampleDefinition (newSensorGroup exampleSensor) \<lparr> vx = 0, vy = 0, vz = 1 \<rparr> = 9/2"
    by (rule hit) (simp add: objs exampleRaycast_def exampleDefinition_def)
  note miss = nearest_hit_or_max_range [of emptyObstacleManager exampleWorld exampleRaycast
        "newSensorGroup exampleSensor" "\<lparr> vx = 0, vy = 0, vz = 1 \<rparr>" exampleDefinition,
        THEN conjunct2, THEN conjunct2, THEN conjunct1, rule_format]
  have "rayDistance exampleRaycast (collidableObjects emptyObstacleManager exampleWorld)
       exampleDefinition (newSensorGroup exampleSensor) \<lparr> vx = 0, vy = 0, vz = 1 \<rparr> =
       maxRange exampleDefinition"
    by (rule miss) (simp add: objs' exampleRaycast_def exampleDefinition_def)
  then have two: "rayDistance exampleRaycast (collidableObjects emptyObstacleManager exampleWorld)
       exampleDefinition (newSensorGroup exampleSensor) \<lparr> vx = 0, vy = 0, vz = 1 \<rparr> = 20"
    by (simp add: exampleDefinition_def)
  show ?thesis using one two by simp
qed

section \<open>Degenerate rays\<close>

lemma length_concat_map_filter:
  "length (concat (map (\<lambda>i. List.map_filter (f i) js) is)) =
   length (filter (\<lambda>(i, j). f i j \<noteq> None) (List.product is js))"
proof (induction "is")
  case Nil
  then show ?case by simp
next
  case (Cons i "is")
  have "length (List.map_filter (f i) js) = length (filter (\<lambda>j. f i j \<noteq> None) js)"
    by (simp add: List.map_filter_def)
  moreover have "filter (\<lambda>(i, j). f i j \<noteq> None) (map (Pair i) js) =
                 map (Pair i) (filter (\<lambda>j. f i j \<noteq> None) js)"
    by (induction js) auto
  ultimately show ?case using Cons by simp
qed

text \<open>
  C7. The threshold is 0.01. A ray whose resolved distance is below it yields no beam, and
  nothing else happens: the function has no error result and the beam manager no log. The
  beams of a sensor are the beams of all rays of the grid, in loop order, without the
  skipped ones, so the rays after a skipped one are still evaluated; no emitted beam is
  shorter than the threshold, and the number of beams is the number of rays of the grid
  at or above it.
\<close>

theorem degenerate_rays_skipped:
  "(castBeam rc objs d g i j = None \<longleftrightarrow> sampleDistance rc objs d g i j < 0.01) \<and>
   sensorBeams rc objs d g =
     concat (map (\<lambda>i. List.map_filter (castBeam rc objs d g i) [0..numHorizontalSteps d - 1])
                 [0..channels d - 1]) \<and>
   list_all (\<lambda>b. \<not> cone_height (beam_geometry b) < 0.01) (sensorBeams rc objs d g) \<and>
   length (sensorBeams rc objs d g) =
     length (filter (\<lambda>(i, j). \<not> sampleDistance rc objs d g i j < 0.01)
                    (List.product [0..channels d - 1] [0..numHorizontalSteps d - 1]))"
proof -
  have "\<not> cone_height (beam_geometry b) < 0.01" if "b \<in> set (sensorBeams rc objs d g)" for b
  proof -
    from that obtain i j where "castBeam rc objs d g i j = Some b"
      unfolding set_sensorBeams by blast
    from castBeam_Some(2,3) [OF this] show ?thesis by simp
  qed
  then have "list_all (\<lambda>b. \<not> cone_height (beam_geometry b) < 0.01) (sensorBeams rc objs d g)"
    by (simp add: list_all_iff)
  moreover have "length (sensorBeams rc objs d g) =
     length (filter (\<lambda>(i, j). \<not> sampleDistance rc objs d g i j < 0.01)
                    (List.product [0..channels d - 1] [0..numHorizontalSteps d - 1]))"
    by (simp add: sensorBeams_concat length_concat_map_filter castBeam_None)
  ultimately show ?thesis
    using castBeam_None [of rc objs d g i j] sensorBeams_concat [of rc objs d g] by simp
qed

theorem degenerate_rays_skipped_witness:
  "castBeam nearRaycast (collidableObjects exampleObstacles exampleWorld) exampleDefinition
     (newSensorGroup exampleSensor) 0 0 = None \<and>
   castBeam exampleRaycast (collidableObjects exampleObstacles exampleWorld) exampleDefinition
     (newSensorGroup exampleSensor) 0 0 \<noteq> None"
proof -
  have objs: "collidableObjects exampleObstacles exampleWorld =
        [ObstacleObject (newObstacleMesh exampleObstacle),
         FloorObject \<lparr> plane_sizeX = 30, plane_sizeZ = 30,
                       plane_position = \<lparr> vx = 15, vy = 0, vz = 15 \<rparr> \<rparr>]"
    by (simp add: collidableObjects_def exampleObstacles_def exampleWorld_def addObstacle_def
        emptyObstacleManager_def emptyWorldManager_def initWorld_def getAllObstacles_def
        getFloorPlane_def exampleObstacle_def Let_def)
  have near: "sampleDistance nearRaycast (collidableObjects exampleObstacles exampleWorld)
        exampleDefinition (newSensorGroup exampleSensor) 0 0 = 1/200"
    by (simp add: objs sampleDistance_def rayDistance_def intersectObjects_def nearRaycast_def
        exampleDefinition_def)
  have far: "sampleDistance exampleRaycast (collidableObjects exampleObstacles exampleWorld)
        exampleDefinition (newSensorGroup exampleSensor) 0 0 = 9/2"
    by (simp add: objs sampleDistance_def rayDistance_def intersectObjects_def exampleRaycast_def
        exampleDefinition_def)
  show ?thesis
    using degenerate_rays_skipped [of nearRaycast
        "collidableObjects exampleObstacles exampleWorld" exampleDefinition
        "newSensorGroup exampleSensor" 0 0]
      degenerate_rays_skipped [of exampleRaycast
        "collidableObjects exampleObstacles exampleWorld" exampleDefinition
        "newSensorGroup exampleSensor" 0 0]
    by (simp add: near far)
qed

section \<open>Ray directions\<close>

lemma setFromEuler_product:
  "setFromEuler e = qmul (qmul (rotY (ey e)) (rotX (ex e))) (rotZ (ez e))"
  by (simp add: setFromEuler_def qmul_def rotX_def rotY_def rotZ_def Let_def algebra_simps)

lemma qnorm2_qmul: "qnorm2 (qmul a b) = qnorm2 a * qnorm2 b"
  by (simp add: qnorm2_def qmul_def algebra_simps)

lemma sin_cos_unit: "sin a * sin a + cos a * cos a = (1::real)"
  using sin_cos_squared_add [of a] by (simp add: power2_eq_square)

lemma qnorm2_rot: "qnorm2 (rotX a) = 1" "qnorm2 (rotY a) = 1" "qnorm2 (rotZ a) = 1"
  by (simp_all add: qnorm2_def rotX_def rotY_def rotZ_def sin_cos_unit)

lemma qnorm2_setFromEuler: "qnorm2 (setFromEuler e) = 1"
  by (simp add: setFromEuler_product qnorm2_qmul qnorm2_rot)

lemma applyQuaternion_rotate:
  assumes "qnorm2 q = 1"
  shows "applyQuaternion q v = qrotate q v"
proof -
  have n: "qw q * qw q = 1 - qx q * qx q - qy q * qy q - qz q * qz q"
    using assms by (simp add: qnorm2_def)
  have n: "qw q * (qw q * c) = c - qx q * (qx q * c) - qy q * (qy q * c) - qz q * (qz q * c)" for c
  proof -
    have "qw q * (qw q * c) = (qw q * qw q) * c" by simp
    also have "\<dots> = (1 - qx q * qx q - qy q * qy q - qz q * qz q) * c" by (simp only: n)
    finally show ?thesis by (simp add: algebra_simps)
  qed
  have "vx (applyQuaternion q v) = vx (qrotate q v)"
    by (simp add: applyQuaternion_def qrotate_def qmul_def qconj_def pureQuaternion_def Let_def
        algebra_simps n)
  moreover have "vy (applyQuaternion q v) = vy (qrotate q v)"
    by (simp add: applyQuaternion_def qrotate_def qmul_def qconj_def pureQuaternion_def Let_def
        algebra_simps n)
  moreover have "vz (applyQuaternion q v) = vz (qrotate q v)"
    by (simp add: applyQuaternion_def qrotate_def qmul_def qconj_def pureQuaternion_def Let_def
        algebra_simps n)
  ultimately show ?thesis
    by (simp add: applyQuaternion_def qrotate_def Let_def)
qed

lemma quaternion_newSensorGroup:
  "quaternion (newSensorGroup s) =
   qmul (qmul (rotY (degToRad (yaw (rotation s)))) (rotX (degToRad (pitch (rotation s)))))
        (rotZ (degToRad (roll (rotation s))))"
  by (simp add: quaternion_def newSensorGroup_def setFromEuler_product)

lemma rayDirection_rotate:
  "rayDirection g v h = normalize (qrotate (quaternion g) (localDirection v h))"
  by (simp add: rayDirection_def quaternion_def applyQuaternion_rotate qnorm2_setFromEuler)

text \<open>
  C6. The quaternion of the group built for a placed sensor is the product of the rotation
  about the vertical axis Y by the yaw, the rotation about the lateral axis X by the pitch
  and the rotation about the forward axis Z by the roll, in that order. The direction of
  the ray with vertical angle \<open>v\<close> and horizontal angle \<open>h\<close> is the local vector
  \<open>(sin h cos v, sin v, cos h cos v)\<close> rotated by that quaternion and normalised; the
  horizontal angle of step \<open>j\<close> is \<open>- hFov / 2 + j * (hFov / N)\<close> with \<open>N\<close> the number of
  steps; and the beam emitted for channel \<open>i\<close> and step \<open>j\<close> points along that direction.
\<close>

theorem ray_direction_construction:
  "quaternion (newSensorGroup s) =
     qmul (qmul (rotY (degToRad (yaw (rotation s)))) (rotX (degToRad (pitch (rotation s)))))
          (rotZ (degToRad (roll (rotation s)))) \<and>
   rayDirection (newSensorGroup s) v h =
     normalize (qrotate (quaternion (newSensorGroup s))
                       \<lparr> vx = sin h * cos v, vy = sin v, vz = cos h * cos v \<rparr>) \<and>
   hAngleRad d j =
     degToRad (- (hFov d / 2) + real_of_int j * (hFov d / real_of_int (numHorizontalSteps d))) \<and>
   map_option beam_direction (castBeam rc objs d (newSensorGroup s) i j) =
     (if sampleDistance rc objs d (newSensorGroup s) i j < 0.01 then None
      else Some (normalize (qrotate (quaternion (newSensorGroup s))
                   \<lparr> vx = sin (hAngleRad d j) * cos (vAngleRad d i),
                     vy = sin (vAngleRad d i),
                     vz = cos (hAngleRad d j) * cos (vAngleRad d i) \<rparr>)))"
proof -
  have dir: "rayDirection (newSensorGroup s) v h =
     normalize (qrotate (quaternion (newSensorGroup s))
                       \<lparr> vx = sin h * cos v, vy = sin v, vz = cos h * cos v \<rparr>)" for v h
    by (simp add: rayDirection_rotate localDirection_def)
  have beam: "map_option beam_direction (castBeam rc objs d (newSensorGroup s) i j) =
     (if sampleDistance rc objs d (newSensorGroup s) i j < 0.01 then None
      else Some (rayDirection (newSensorGroup s) (vAngleRad d i) (hAngleRad d j)))"
    by (simp add: castBeam_def sampleDistance_def Let_def)
  show ?thesis
    unfolding beam dir
    by (simp add: quaternion_newSensorGroup [symmetric] hAngleRad_def)
qed

section \<open>Association lists as insertion-ordered maps\<close>

lemma update_fresh: "k \<notin> fst ` set al \<Longrightarrow> AList.update k v al = al @ [(k, v)]"
  by (induction al) auto

lemma fold_update_fresh:
  "distinct (map key xs) \<Longrightarrow> key ` set xs \<inter> fst ` set al = {} \<Longrightarrow>
   fold (\<lambda>d. AList.update (key d) (val d)) xs al = al @ map (\<lambda>d. (key d, val d)) xs"
proof (induction xs arbitrary: al)
  case Nil
  then show ?case by simp
next
  case (Cons x xs)
  have f: "key x \<notin> fst ` set al" using Cons.prems by auto
  have "key ` set xs \<inter> fst ` set (al @ [(key x, val x)]) = {}"
    using Cons.prems by auto
  with Cons show ?case by (simp add: update_fresh [OF f])
qed

lemma find_append:
  "find P (xs @ ys) = (case find P xs of None \<Rightarrow> find P ys | Some x \<Rightarrow> Some x)"
  by (induction xs) auto

lemma map_of_fold_update:
  "map_of (fold (\<lambda>d. AList.update (key d) (val d)) xs al) k =
   (case find (\<lambda>d. key d = k) (rev xs) of Some d \<Rightarrow> Some (val d) | None \<Rightarrow> map_of al k)"
proof (induction xs arbitrary: al)
  case Nil
  then show ?case by simp
next
  case (Cons x xs)
  show ?case
    by (simp add: Cons.IH find_append update_conv' split: option.splits)
qed

lemma set_update_subset: "set (AList.update k v al) \<subseteq> insert (k, v) (set al)"
  by (induction al) auto

lemma map_update_values:
  "map (\<lambda>(k, d). (k, f d)) (AList.update k v al) =
   AList.update k (f v) (map (\<lambda>(k, d). (k, f d)) al)"
  by (induction al) auto

lemma map_delete_values:
  "map (\<lambda>(k, d). (k, f d)) (AList.delete k al) = AList.delete k (map (\<lambda>(k, d). (k, f d)) al)"
  by (induction al) auto

section \<open>The obstacle registry\<close>

lemma fold_addObstacle:
  "fold addObstacle data om =
   om\<lparr> obstacles := fold (\<lambda>d. AList.update (obstacle_id d) (newObstacleMesh d)) data (obstacles om) \<rparr>"
  by (induction data arbitrary: om) (simp_all add: addObstacle_def)

lemma clear_obstacles_aux:
  "distinct (map fst al) \<Longrightarrow> list_all (\<lambda>(k, m). mesh_name m = k) al \<Longrightarrow> obstacles om = al \<Longrightarrow>
   fold (\<lambda>obs. removeObstacle (mesh_name obs)) (map snd al) om = om\<lparr> obstacles := [] \<rparr>"
proof (induction al arbitrary: om)
  case Nil
  then show ?case by simp
next
  case (Cons p al)
  obtain k m where p: "p = (k, m)" by (cases p)
  have nm: "mesh_name m = k" and fresh: "k \<notin> fst ` set al" using Cons.prems by (auto simp: p)
  have step: "removeObstacle k om = om\<lparr> obstacles := al \<rparr>"
    using Cons.prems(3) fresh by (simp add: removeObstacle_def p)
  have "fold (\<lambda>obs. removeObstacle (mesh_name obs)) (map snd al) (om\<lparr> obstacles := al \<rparr>) =
        om\<lparr> obstacles := al \<rparr>\<lparr> obstacles := [] \<rparr>"
    using Cons.prems by (intro Cons.IH) (auto simp: p)
  then show ?case by (simp add: p nm step)
qed

lemma clear_obstacles:
  "wfObstacleManager om \<Longrightarrow>
   fold (\<lambda>obs. removeObstacle (mesh_name obs)) (getAllObstacles om) om = om\<lparr> obstacles := [] \<rparr>"
  by (simp add: wfObstacleManager_def getAllObstacles_def clear_obstacles_aux)

lemma deserializeObstacles_wf:
  "wfObstacleManager om \<Longrightarrow>
   deserializeObstacles data om =
   om\<lparr> obstacles := fold (\<lambda>d. AList.update (obstacle_id d) (newObstacleMesh d)) data [] \<rparr>"
  by (simp add: deserializeObstacles_def clear_obstacles fold_addObstacle)

lemma roundtrip_obstacles:
  assumes "wfObstacleManager om"
  shows "deserializeObstacles (serializeObstacles om) (deserializeObstacles [] om) = om"
proof -
  have e: "deserializeObstacles [] om = om\<lparr> obstacles := [] \<rparr>"
    using assms by (simp add: deserializeObstacles_wf)
  have w: "wfObstacleManager (om\<lparr> obstacles := [] \<rparr>)" by (simp add: wfObstacleManager_def)
  have d: "distinct (map obstacle_id (serializeObstacles om))"
  proof -
    have "map obstacle_id (serializeObstacles om) = map fst (obstacles om)"
      by (simp add: serializeObstacles_def case_prod_beta)
    then show ?thesis using assms by (simp add: wfObstacleManager_def)
  qed
  have "fold (\<lambda>d. AList.update (obstacle_id d) (newObstacleMesh d)) (serializeObstacles om) [] =
        map (\<lambda>d. (obstacle_id d, newObstacleMesh d)) (serializeObstacles om)"
    using fold_update_fresh [OF d, of "[]" newObstacleMesh] by simp
  also have "\<dots> = obstacles om"
  proof -
    have "(obstacle_id (case p of (k, obstacle) \<Rightarrow>
              \<lparr> obstacle_id = k, obstacle_position = mesh_position obstacle,
                dimensions = parameters obstacle \<rparr>),
           newObstacleMesh (case p of (k, obstacle) \<Rightarrow>
              \<lparr> obstacle_id = k, obstacle_position = mesh_position obstacle,
                dimensions = parameters obstacle \<rparr>)) = p"
      if "p \<in> set (obstacles om)" for p
    proof -
      obtain k m where p: "p = (k, m)" by (cases p)
      with that assms have "mesh_name m = k"
        by (auto simp: wfObstacleManager_def list_all_iff)
      then show ?thesis by (simp add: p newObstacleMesh_def)
    qed
    then show ?thesis
      by (simp add: serializeObstacles_def map_idI)
  qed
  finally show ?thesis by (simp add: e deserializeObstacles_wf [OF w])
qed

text \<open>The invariant holds at construction and every operation of the registry keeps it.\<close>

lemma wf_emptyObstacleManager: "wfObstacleManager emptyObstacleManager"
  by (simp add: wfObstacleManager_def emptyObstacleManager_def)

lemma wf_addObstacle: "wfObstacleManager om \<Longrightarrow> wfObstacleManager (addObstacle d om)"
  using set_update_subset [of "obstacle_id d" "newObstacleMesh d" "obstacles om"]
  by (auto simp: wfObstacleManager_def addObstacle_def distinct_update list_all_iff
      newObstacleMesh_def)

lemma wf_removeObstacle: "wfObstacleManager om \<Longrightarrow> wfObstacleManager (removeObstacle k om)"
proof -
  assume w: "wfObstacleManager om"
  have "set (AList.delete k (obstacles om)) \<subseteq> set (obstacles om)"
    by (auto simp: AList.delete_eq)
  with w show ?thesis
    by (auto simp: wfObstacleManager_def removeObstacle_def distinct_delete list_all_iff
        split: option.splits)
qed

lemma wf_updateObstacle:
  assumes "wfObstacleManager om"
  shows "wfObstacleManager (updateObstacle k newPosition newDimensions om)"
proof (cases "map_of (obstacles om) k")
  case None
  with assms show ?thesis by (simp add: updateObstacle_def wfObstacleManager_def)
next
  case (Some m)
  then have "(k, m) \<in> set (obstacles om)" by (rule map_of_SomeD)
  with assms have nm: "mesh_name m = k" by (auto simp: wfObstacleManager_def list_all_iff)
  define m' where "m' = (let o1 = (case newPosition of None \<Rightarrow> m | Some p \<Rightarrow> m\<lparr> mesh_position := p \<rparr>)
      in case newDimensions of None \<Rightarrow> o1 | Some dims \<Rightarrow> o1\<lparr> parameters := dims \<rparr>)"
  have nm': "mesh_name m' = k"
    using nm by (simp add: m'_def Let_def split: option.splits)
  have u: "updateObstacle k newPosition newDimensions om =
           om\<lparr> obstacles := AList.update k m' (obstacles om) \<rparr>"
    by (simp add: updateObstacle_def Some m'_def Let_def)
  show ?thesis
    using assms nm' set_update_subset [of k m' "obstacles om"]
    by (auto simp: u wfObstacleManager_def distinct_update list_all_iff)
qed

lemma wf_deserializeObstacles:
  "wfObstacleManager om \<Longrightarrow> wfObstacleManager (deserializeObstacles data om)"
proof -
  assume w: "wfObstacleManager om"
  have "wfObstacleManager (fold addObstacle data om')" if "wfObstacleManager om'" for om'
    using that by (induction data arbitrary: om') (simp_all add: wf_addObstacle)
  moreover have "wfObstacleManager (om\<lparr> obstacles := [] \<rparr>)" by (simp add: wfObstacleManager_def)
  ultimately show ?thesis
    by (simp add: deserializeObstacles_def clear_obstacles [OF w])
qed

section \<open>The sensor registry\<close>

lemma addSensor_resolved:
  "resolves sm d \<Longrightarrow>
   addSensor d sm =
   sm\<lparr> placedSensors := AList.update (sensor_id d) (newSensorGroup d) (placedSensors sm),
       placedSensorData := AList.update (sensor_id d) d (placedSensorData sm) \<rparr>"
  by (auto simp: addSensor_def resolves_def)

lemma addSensor_unresolved:
  "\<not> resolves sm d \<Longrightarrow>
   addSensor d sm = sm\<lparr> sensorConsole := sensorConsole sm @ [notFoundMessage d] \<rparr>"
  by (simp add: addSensor_def resolves_def notFoundMessage_def)

lemma resolves_addSensor: "resolves (addSensor d sm) = resolves sm"
  by (auto simp: resolves_def addSensor_def fun_eq_iff split: option.splits)

lemma fold_addSensor:
  "fold addSensor data sm =
   sm\<lparr> placedSensors :=
         fold (\<lambda>d. AList.update (sensor_id d) (newSensorGroup d)) (filter (resolves sm) data)
              (placedSensors sm),
       placedSensorData :=
         fold (\<lambda>d. AList.update (sensor_id d) d) (filter (resolves sm) data) (placedSensorData sm),
       sensorConsole :=
         sensorConsole sm @ map notFoundMessage (filter (\<lambda>d. \<not> resolves sm d) data) \<rparr>"
proof (induction data arbitrary: sm)
  case Nil
  then show ?case by simp
next
  case (Cons d data)
  show ?case
  proof (cases "resolves sm d")
    case True
    then show ?thesis
      by (simp add: Cons.IH resolves_addSensor) (simp add: addSensor_resolved)
  next
    case False
    then show ?thesis
      by (simp add: Cons.IH resolves_addSensor) (simp add: addSensor_unresolved)
  qed
qed

lemma clear_sensors_aux:
  "distinct (map fst al) \<Longrightarrow> list_all (\<lambda>(k, d). sensor_id d = k) al \<Longrightarrow>
   placedSensorData sm = al \<Longrightarrow> placedSensors sm = map (\<lambda>(k, d). (k, newSensorGroup d)) al \<Longrightarrow>
   fold (\<lambda>s. removeSensor (sensor_id s)) (map snd al) sm =
   sm\<lparr> placedSensors := [], placedSensorData := [] \<rparr>"
proof (induction al arbitrary: sm)
  case Nil
  then show ?case by simp
next
  case (Cons p al)
  obtain k d where p: "p = (k, d)" by (cases p)
  have nm: "sensor_id d = k" and fresh: "k \<notin> fst ` set al" using Cons.prems by (auto simp: p)
  have fresh': "k \<notin> fst ` set (map (\<lambda>(k, d). (k, newSensorGroup d)) al)"
    using fresh by (auto simp: image_iff)
  let ?sm = "sm\<lparr> placedSensors := map (\<lambda>(k, d). (k, newSensorGroup d)) al, placedSensorData := al \<rparr>"
  have step: "removeSensor k sm = ?sm"
    using Cons.prems(3,4) fresh fresh' by (simp add: removeSensor_def p)
  have "fold (\<lambda>s. removeSensor (sensor_id s)) (map snd al) ?sm =
        ?sm\<lparr> placedSensors := [], placedSensorData := [] \<rparr>"
    using Cons.prems by (intro Cons.IH) (auto simp: p)
  then show ?case by (simp add: p nm step)
qed

lemma clear_sensors:
  "wfSensorManager sm \<Longrightarrow>
   fold (\<lambda>s. removeSensor (sensor_id s)) (getAllPlacedSensorData sm) sm =
   sm\<lparr> placedSensors := [], placedSensorData := [] \<rparr>"
  unfolding wfSensorManager_def getAllPlacedSensorData_def
  by (intro clear_sensors_aux) (auto simp: list_all_iff)

lemma deserializeSensors_wf:
  "wfSensorManager sm \<Longrightarrow>
   deserializeSensors data sm =
   sm\<lparr> placedSensors :=
         fold (\<lambda>d. AList.update (sensor_id d) (newSensorGroup d)) (filter (resolves sm) data) [],
       placedSensorData :=
         fold (\<lambda>d. AList.update (sensor_id d) d) (filter (resolves sm) data) [],
       sensorConsole :=
         sensorConsole sm @ map notFoundMessage (filter (\<lambda>d. \<not> resolves sm d) data) \<rparr>"
proof -
  assume w: "wfSensorManager sm"
  have r: "resolves (sm\<lparr> placedSensors := [], placedSensorData := [] \<rparr>) = resolves sm"
    by (simp add: resolves_def fun_eq_iff)
  show ?thesis
    by (simp add: deserializeSensors_def clear_sensors [OF w] fold_addSensor r)
qed

lemma roundtrip_sensors:
  assumes "wfSensorManager sm"
  shows "deserializeSensors (serializeSensors sm) (deserializeSensors [] sm) = sm"
proof -
  let ?al = "placedSensorData sm"
  have e: "deserializeSensors [] sm = sm\<lparr> placedSensors := [], placedSensorData := [] \<rparr>"
    using assms by (simp add: deserializeSensors_wf)
  let ?sm = "sm\<lparr> placedSensors := [], placedSensorData := [] \<rparr>"
  have w: "wfSensorManager ?sm" by (simp add: wfSensorManager_def)
  have r: "resolves ?sm = resolves sm" by (simp add: resolves_def fun_eq_iff)
  have res: "\<forall>d \<in> set (serializeSensors sm). resolves sm d"
    using assms by (auto simp: wfSensorManager_def serializeSensors_def list_all_iff)
  have all: "filter (resolves sm) (serializeSensors sm) = serializeSensors sm"
    and none: "filter (\<lambda>d. \<not> resolves sm d) (serializeSensors sm) = []"
    using res by (simp_all add: filter_empty_conv)
  have ids: "map sensor_id (serializeSensors sm) = map fst ?al"
    using assms by (auto simp: wfSensorManager_def serializeSensors_def list_all_iff)
  then have d: "distinct (map sensor_id (serializeSensors sm))"
    using assms by (simp add: wfSensorManager_def)
  have pair: "map (\<lambda>d. (sensor_id d, d)) (serializeSensors sm) = ?al"
    using assms by (auto simp: wfSensorManager_def serializeSensors_def list_all_iff intro!: map_idI)
  have pairg: "map (\<lambda>d. (sensor_id d, newSensorGroup d)) (serializeSensors sm) = placedSensors sm"
  proof -
    have "map (\<lambda>d. (sensor_id d, newSensorGroup d)) (serializeSensors sm) =
          map (\<lambda>(k, d). (k, newSensorGroup d)) (map (\<lambda>d. (sensor_id d, d)) (serializeSensors sm))"
      by simp
    then show ?thesis using assms by (simp only: pair) (simp add: wfSensorManager_def)
  qed
  have a: "fold (\<lambda>d. AList.update (sensor_id d) d) (serializeSensors sm) [] = ?al"
    using fold_update_fresh [OF d, of "[]" "\<lambda>d. d"] by (simp add: pair)
  have b: "fold (\<lambda>d. AList.update (sensor_id d) (newSensorGroup d)) (serializeSensors sm) [] =
           placedSensors sm"
    using fold_update_fresh [OF d, of "[]" newSensorGroup] by (simp add: pairg)
  show ?thesis
    by (simp add: e deserializeSensors_wf [OF w] r all none a b)
qed

text \<open>In a registry that satisfies its invariant the placed sensors have distinct ids.\<close>

lemma wf_distinct_ids:
  assumes "wfSensorManager sm"
  shows "distinct (map sensor_id (getAllPlacedSensorData sm))"
proof -
  have e: "map sensor_id (map snd (placedSensorData sm)) = map fst (placedSensorData sm)"
    using assms by (auto simp: wfSensorManager_def list_all_iff)
  have "distinct (map fst (placedSensorData sm))"
    using assms by (simp add: wfSensorManager_def)
  then show ?thesis
    unfolding getAllPlacedSensorData_def by (simp only: e)
qed

text \<open>The invariant holds at construction and every operation of the registry keeps it.\<close>

lemma wf_emptySensorManager: "wfSensorManager emptySensorManager"
  by (simp add: wfSensorManager_def emptySensorManager_def)

lemma wf_update_entry:
  assumes w: "wfSensorManager sm" and id: "sensor_id d = k" and r: "resolves sm d"
  shows "wfSensorManager
           (sm\<lparr> placedSensors := AList.update k (newSensorGroup d) (placedSensors sm),
                placedSensorData := AList.update k d (placedSensorData sm) \<rparr>)"
proof -
  let ?al = "AList.update k d (placedSensorData sm)"
  have rs: "resolves (sm\<lparr> placedSensors := a, placedSensorData := b \<rparr>) = resolves sm" for a b
    by (simp add: resolves_def fun_eq_iff)
  have g: "AList.update k (newSensorGroup d) (placedSensors sm) =
           map (\<lambda>(k, d). (k, newSensorGroup d)) ?al"
    using w by (simp add: wfSensorManager_def map_update_values)
  have di: "distinct (map fst ?al)"
    using w by (simp add: wfSensorManager_def distinct_update)
  have "sensor_id d' = k' \<and> resolves sm d'" if "(k', d') \<in> set ?al" for k' d'
  proof -
    from that set_update_subset [of k d "placedSensorData sm"]
    have "(k', d') = (k, d) \<or> (k', d') \<in> set (placedSensorData sm)" by auto
    with w id r show ?thesis by (auto simp: wfSensorManager_def list_all_iff)
  qed
  then have la: "list_all (\<lambda>(k, d). sensor_id d = k \<and> resolves sm d) ?al"
    by (auto simp: list_all_iff)
  show ?thesis
    unfolding wfSensorManager_def rs using g di la by simp
qed

lemma wf_addSensor: "wfSensorManager sm \<Longrightarrow> wfSensorManager (addSensor d sm)"
proof (cases "resolves sm d")
  case True
  assume "wfSensorManager sm"
  then show ?thesis
    by (simp add: addSensor_resolved [OF True] wf_update_entry True)
next
  case False
  assume "wfSensorManager sm"
  moreover have "resolves (sm\<lparr> sensorConsole := c \<rparr>) = resolves sm" for c
    by (simp add: resolves_def fun_eq_iff)
  ultimately show ?thesis
    by (simp add: addSensor_unresolved [OF False] wfSensorManager_def)
qed

lemma wf_removeSensor: "wfSensorManager sm \<Longrightarrow> wfSensorManager (removeSensor k sm)"
proof -
  assume w: "wfSensorManager sm"
  have sub: "set (AList.delete k (placedSensorData sm)) \<subseteq> set (placedSensorData sm)"
    by (auto simp: AList.delete_eq)
  have rs: "resolves (sm\<lparr> placedSensors := a, placedSensorData := b \<rparr>) = resolves sm" for a b
    by (simp add: resolves_def fun_eq_iff)
  have rc: "resolves (sm\<lparr> sensorConsole := c \<rparr>) = resolves sm" for c
    by (simp add: resolves_def fun_eq_iff)
  show ?thesis
  proof (cases "map_of (placedSensors sm) k")
    case None
    with w show ?thesis by (simp add: removeSensor_def wfSensorManager_def rc)
  next
    case (Some g)
    with w sub show ?thesis
      by (auto simp: removeSensor_def wfSensorManager_def rs distinct_delete map_delete_values
          list_all_iff)
  qed
qed

lemma wf_lookup:
  assumes "wfSensorManager sm" and "map_of (placedSensorData sm) k = Some d"
  shows "sensor_id d = k \<and> resolves sm d \<and> map_of (placedSensors sm) k = Some (newSensorGroup d)"
proof -
  from assms(2) have m: "(k, d) \<in> set (placedSensorData sm)" by (rule map_of_SomeD)
  with assms(1) have "sensor_id d = k" "resolves sm d"
    by (auto simp: wfSensorManager_def list_all_iff)
  moreover have "map_of (map (\<lambda>(k, d). (k, f d)) al) k = map_option f (map_of al k)"
    for f :: "PlacedSensorData \<Rightarrow> SensorGroup" and al
    by (induction al) auto
  then have "map_of (placedSensors sm) k = Some (newSensorGroup d)"
    using assms by (simp add: wfSensorManager_def)
  ultimately show ?thesis by simp
qed

lemma wf_updateSensor:
  assumes w: "wfSensorManager sm"
  shows "wfSensorManager (updateSensor k newPosition newRotation sm)"
proof (cases "map_of (placedSensorData sm) k")
  case None
  have rc: "resolves (sm\<lparr> sensorConsole := c \<rparr>) = resolves sm" for c
    by (simp add: resolves_def fun_eq_iff)
  from None w show ?thesis
    by (auto simp: updateSensor_def wfSensorManager_def rc split: option.splits)
next
  case (Some d)
  note l = wf_lookup [OF w Some]
  define d' where "d' = (let d1 = (case newPosition of None \<Rightarrow> d | Some p \<Rightarrow> d\<lparr> sensor_position := p \<rparr>)
      in case newRotation of None \<Rightarrow> d1 | Some r \<Rightarrow> d1\<lparr> rotation := r \<rparr>)"
  have id: "sensor_id d' = k" and df: "definitionId d' = definitionId d"
    using l by (simp_all add: d'_def Let_def split: option.splits)
  have r: "resolves sm d'" using l df by (simp add: resolves_def)
  have u: "updateSensor k newPosition newRotation sm =
        sm\<lparr> placedSensors := AList.update k (newSensorGroup d') (placedSensors sm),
            placedSensorData := AList.update k d' (placedSensorData sm) \<rparr>"
    using l by (simp add: updateSensor_def Some d'_def Let_def newSensorGroup_def split: option.splits)
  show ?thesis unfolding u by (rule wf_update_entry [OF w id r])
qed

lemma wf_setSensorVisibility:
  assumes w: "wfSensorManager sm"
  shows "wfSensorManager (setSensorVisibility k v sm)"
proof (cases "map_of (placedSensorData sm) k")
  case None
  have rc: "resolves (sm\<lparr> sensorConsole := c \<rparr>) = resolves sm" for c
    by (simp add: resolves_def fun_eq_iff)
  from None w show ?thesis
    by (auto simp: setSensorVisibility_def wfSensorManager_def rc split: option.splits)
next
  case (Some d)
  note l = wf_lookup [OF w Some]
  have id: "sensor_id (d\<lparr> visible := v \<rparr>) = k" using l by simp
  have r: "resolves sm (d\<lparr> visible := v \<rparr>)" using l by (simp add: resolves_def)
  have u: "setSensorVisibility k v sm =
        sm\<lparr> placedSensors := AList.update k (newSensorGroup (d\<lparr> visible := v \<rparr>)) (placedSensors sm),
            placedSensorData := AList.update k (d\<lparr> visible := v \<rparr>) (placedSensorData sm) \<rparr>"
    using l by (simp add: setSensorVisibility_def Some newSensorGroup_def)
  show ?thesis unfolding u by (rule wf_update_entry [OF w id r])
qed

lemma wf_deserializeSensors:
  "wfSensorManager sm \<Longrightarrow> wfSensorManager (deserializeSensors data sm)"
proof -
  assume w: "wfSensorManager sm"
  have "wfSensorManager (fold addSensor data sm')" if "wfSensorManager sm'" for sm'
    using that by (induction data arbitrary: sm') (simp_all add: wf_addSensor)
  moreover have "wfSensorManager (sm\<lparr> placedSensors := [], placedSensorData := [] \<rparr>)"
    by (simp add: wfSensorManager_def)
  ultimately show ?thesis
    by (simp add: deserializeSensors_def clear_sensors [OF w])
qed

section \<open>Serialising and deserialising the registries\<close>

lemma wf_exampleObstacles: "wfObstacleManager exampleObstacles"
  by (simp add: exampleObstacles_def wf_addObstacle wf_emptyObstacleManager)

lemma wf_exampleSensors: "wfSensorManager exampleSensors"
proof -
  have "wfSensorManager (emptySensorManager\<lparr> sensorDefinitions := [(''vlp16'', exampleDefinition)] \<rparr>)"
    by (simp add: wfSensorManager_def emptySensorManager_def)
  then show ?thesis by (simp add: exampleSensors_def wf_addSensor)
qed

lemma placedSensorData_exampleSensors:
  "placedSensorData exampleSensors =
   [(''sen-1'', exampleSensor), (''sen-2'', exampleSensor\<lparr> sensor_id := ''sen-2'', visible := False \<rparr>)]"
  by (simp add: exampleSensors_def addSensor_def emptySensorManager_def exampleSensor_def)

lemma obstacles_exampleObstacles:
  "obstacles exampleObstacles = [(''obs-1'', newObstacleMesh exampleObstacle)]"
  by (simp add: exampleObstacles_def addObstacle_def emptyObstacleManager_def exampleObstacle_def)

text \<open>
  C8. In a registry state as the operations of the two registries leave it (distinct ids,
  every sensor record with a definition that resolves), serialising both registries,
  clearing them (as the loader does, by deserialising the empty list) and deserialising
  the serialised lists gives back the same two registries: the same obstacles and sensor
  instances, in the same number, with the same ids, positions, dimensions, rotations and
  visibility, and the same meshes and groups built from them.
\<close>

theorem serialize_roundtrip:
  assumes "wfObstacleManager om" and "wfSensorManager sm"
  shows "obstacles (deserializeObstacles [] om) = [] \<and>
         placedSensorData (deserializeSensors [] sm) = [] \<and>
         placedSensors (deserializeSensors [] sm) = [] \<and>
         deserializeObstacles (serializeObstacles om) (deserializeObstacles [] om) = om \<and>
         deserializeSensors (serializeSensors sm) (deserializeSensors [] sm) = sm \<and>
         serializeObstacles
           (deserializeObstacles (serializeObstacles om) (deserializeObstacles [] om)) =
           serializeObstacles om \<and>
         serializeSensors
           (deserializeSensors (serializeSensors sm) (deserializeSensors [] sm)) =
           serializeSensors sm \<and>
         length (serializeObstacles om) = length (obstacles om) \<and>
         length (serializeSensors sm) = length (placedSensorData sm)"
proof -
  have a: "deserializeObstacles (serializeObstacles om) (deserializeObstacles [] om) = om"
    by (rule roundtrip_obstacles [OF assms(1)])
  have b: "deserializeSensors (serializeSensors sm) (deserializeSensors [] sm) = sm"
    by (rule roundtrip_sensors [OF assms(2)])
  have c: "obstacles (deserializeObstacles [] om) = []"
    by (simp add: deserializeObstacles_wf [OF assms(1)])
  have d: "placedSensorData (deserializeSensors [] sm) = []"
    and e: "placedSensors (deserializeSensors [] sm) = []"
    by (simp_all add: deserializeSensors_wf [OF assms(2)])
  have f: "length (serializeObstacles om) = length (obstacles om)"
    by (simp add: serializeObstacles_def)
  have g: "length (serializeSensors sm) = length (placedSensorData sm)"
    by (simp add: serializeSensors_def)
  show ?thesis
    by (intro conjI) (simp_all only: a b c d e f g)
qed

theorem serialize_roundtrip_witness:
  "deserializeObstacles (serializeObstacles exampleObstacles)
     (deserializeObstacles [] exampleObstacles) = exampleObstacles \<and>
   deserializeSensors (serializeSensors exampleSensors)
     (deserializeSensors [] exampleSensors) = exampleSensors \<and>
   length (serializeObstacles exampleObstacles) = 1 \<and>
   length (serializeSensors exampleSensors) = 2"
  using serialize_roundtrip [OF wf_exampleObstacles wf_exampleSensors]
  by (simp add: placedSensorData_exampleSensors obstacles_exampleObstacles)

text \<open>
  C10. Deserialising replaces the registry and never merges. Whatever was registered
  before, afterwards the obstacle registry is the one obtained by adding the records of
  \<open>data\<close> in order to an empty registry: looking up an id gives the mesh built from the last
  record of \<open>data\<close> with that id, and nothing when there is none; with distinct ids the
  entries are exactly the meshes built from \<open>data\<close>, in order. The same holds for the
  sensor registry with the records whose \<open>definitionId\<close> resolves; the others are
  dropped, each with a message on the console and nothing thrown.
\<close>

theorem deserialize_replaces:
  assumes "wfObstacleManager om" and "wfSensorManager sm"
  shows "obstacles (deserializeObstacles odata om) =
           fold (\<lambda>x. AList.update (obstacle_id x) (newObstacleMesh x)) odata [] \<and>
         (\<forall>k. getObstacleById (deserializeObstacles odata om) k =
              map_option newObstacleMesh (find (\<lambda>x. obstacle_id x = k) (rev odata))) \<and>
         (distinct (map obstacle_id odata) \<longrightarrow>
            obstacles (deserializeObstacles odata om) =
            map (\<lambda>x. (obstacle_id x, newObstacleMesh x)) odata) \<and>
         placedSensorData (deserializeSensors sdata sm) =
           fold (\<lambda>x. AList.update (sensor_id x) x) (filter (resolves sm) sdata) [] \<and>
         placedSensors (deserializeSensors sdata sm) =
           fold (\<lambda>x. AList.update (sensor_id x) (newSensorGroup x)) (filter (resolves sm) sdata) [] \<and>
         (\<forall>k. map_of (placedSensorData (deserializeSensors sdata sm)) k =
              find (\<lambda>x. sensor_id x = k) (rev (filter (resolves sm) sdata))) \<and>
         (\<forall>k. getPlacedSensorById (deserializeSensors sdata sm) k =
              map_option newSensorGroup
                (find (\<lambda>x. sensor_id x = k) (rev (filter (resolves sm) sdata)))) \<and>
         (distinct (map sensor_id (filter (resolves sm) sdata)) \<longrightarrow>
            placedSensorData (deserializeSensors sdata sm) =
              map (\<lambda>x. (sensor_id x, x)) (filter (resolves sm) sdata) \<and>
            placedSensors (deserializeSensors sdata sm) =
              map (\<lambda>x. (sensor_id x, newSensorGroup x)) (filter (resolves sm) sdata)) \<and>
         sensorDefinitions (deserializeSensors sdata sm) = sensorDefinitions sm \<and>
         sensorConsole (deserializeSensors sdata sm) =
           sensorConsole sm @ map notFoundMessage (filter (\<lambda>x. \<not> resolves sm x) sdata)"
proof -
  note o = deserializeObstacles_wf [OF assms(1), of odata]
  note s = deserializeSensors_wf [OF assms(2), of sdata]
  have o1: "obstacles (deserializeObstacles odata om) =
           fold (\<lambda>x. AList.update (obstacle_id x) (newObstacleMesh x)) odata []"
    by (simp add: o)
  have o2: "getObstacleById (deserializeObstacles odata om) k =
              map_option newObstacleMesh (find (\<lambda>x. obstacle_id x = k) (rev odata))" for k
    by (simp add: getObstacleById_def o1 map_of_fold_update split: option.splits)
  have o3: "obstacles (deserializeObstacles odata om) =
            map (\<lambda>x. (obstacle_id x, newObstacleMesh x)) odata"
    if "distinct (map obstacle_id odata)"
    using fold_update_fresh [OF that, of "[]" newObstacleMesh] by (simp add: o1)
  have s1: "placedSensorData (deserializeSensors sdata sm) =
           fold (\<lambda>x. AList.update (sensor_id x) x) (filter (resolves sm) sdata) []"
    and s2: "placedSensors (deserializeSensors sdata sm) =
           fold (\<lambda>x. AList.update (sensor_id x) (newSensorGroup x)) (filter (resolves sm) sdata) []"
    and s5: "sensorDefinitions (deserializeSensors sdata sm) = sensorDefinitions sm"
    and s6: "sensorConsole (deserializeSensors sdata sm) =
           sensorConsole sm @ map notFoundMessage (filter (\<lambda>x. \<not> resolves sm x) sdata)"
    by (simp_all add: s)
  have s3: "map_of (placedSensorData (deserializeSensors sdata sm)) k =
              find (\<lambda>x. sensor_id x = k) (rev (filter (resolves sm) sdata))" for k
    using map_of_fold_update [of sensor_id "\<lambda>x. x" "filter (resolves sm) sdata" "[]" k]
    by (simp add: s1 split: option.splits)
  have s4: "getPlacedSensorById (deserializeSensors sdata sm) k =
              map_option newSensorGroup
                (find (\<lambda>x. sensor_id x = k) (rev (filter (resolves sm) sdata)))" for k
    by (simp add: getPlacedSensorById_def s2 map_of_fold_update split: option.splits)
  have s7: "placedSensorData (deserializeSensors sdata sm) =
              map (\<lambda>x. (sensor_id x, x)) (filter (resolves sm) sdata) \<and>
            placedSensors (deserializeSensors sdata sm) =
              map (\<lambda>x. (sensor_id x, newSensorGroup x)) (filter (resolves sm) sdata)"
    if "distinct (map sensor_id (filter (resolves sm) sdata))"
    using fold_update_fresh [OF that, of "[]" "\<lambda>x. x"]
      fold_update_fresh [OF that, of "[]" newSensorGroup]
    by (simp add: s1 s2)
  show ?thesis
    using o1 o2 o3 s1 s2 s3 s4 s5 s6 s7 by blast
qed

theorem deserialize_replaces_witness:
  "obstacles (deserializeObstacles [exampleObstacle\<lparr> obstacle_id := ''obs-9'' \<rparr>] exampleObstacles) =
     [(''obs-9'', newObstacleMesh (exampleObstacle\<lparr> obstacle_id := ''obs-9'' \<rparr>))] \<and>
   placedSensorData
     (deserializeSensors [exampleSensor\<lparr> sensor_id := ''sen-9'' \<rparr>,
                          exampleSensor\<lparr> sensor_id := ''sen-8'', definitionId := ''unknown'' \<rparr>]
        exampleSensors) =
     [(''sen-9'', exampleSensor\<lparr> sensor_id := ''sen-9'' \<rparr>)]"
proof -
  have r: "resolves exampleSensors (exampleSensor\<lparr> sensor_id := ''sen-9'' \<rparr>)"
    "\<not> resolves exampleSensors (exampleSensor\<lparr> sensor_id := ''sen-8'', definitionId := ''unknown'' \<rparr>)"
    by (simp_all add: resolves_def exampleSensors_def addSensor_def emptySensorManager_def
        exampleSensor_def)
  show ?thesis
    using deserialize_replaces [OF wf_exampleObstacles wf_exampleSensors,
        of "[exampleObstacle\<lparr> obstacle_id := ''obs-9'' \<rparr>]"
           "[exampleSensor\<lparr> sensor_id := ''sen-9'' \<rparr>,
             exampleSensor\<lparr> sensor_id := ''sen-8'', definitionId := ''unknown'' \<rparr>]"]
    by (simp add: r)
qed

section \<open>The state of the beam manager\<close>

lemma beamMeshes_clear:
  "beamMeshes (clearBeamsForSensor k bm) = AList.delete k (beamMeshes bm)"
proof (cases "map_of (beamMeshes bm) k")
  case None
  then have "k \<notin> fst ` set (beamMeshes bm)" by (simp add: map_of_eq_None_iff)
  with None show ?thesis by (simp add: clearBeamsForSensor_def)
next
  case (Some g)
  then show ?thesis by (simp add: clearBeamsForSensor_def)
qed

lemma generatedGroup_None_iff:
  "generatedGroup rc sm om wm s = None \<longleftrightarrow> \<not> visible s \<or> skipsUntouched sm s"
  by (auto simp: generatedGroup_def skipsUntouched_def split: option.splits)

lemma beamMeshes_step:
  "beamMeshes (updateSensorBeams rc sm om wm s bm) =
   (if \<not> visible s then AList.delete (sensor_id s) (beamMeshes bm)
    else case generatedGroup rc sm om wm s of
           Some G \<Rightarrow> AList.delete (sensor_id s) (beamMeshes bm) @ [(sensor_id s, G)]
         | None \<Rightarrow> beamMeshes bm)"
proof -
  have "AList.update k v (AList.delete k al) = AList.delete k al @ [(k, v)]" for k v
    and al :: "(string \<times> BeamGroup) list"
    by (rule update_fresh) (simp add: delete_notin_dom)
  then show ?thesis
    by (auto simp: updateSensorBeams_def generatedGroup_def generateBeamsForSensor_def Let_def
        beamMeshes_clear split: option.splits)
qed

lemma beamMeshes_first_loop:
  "distinct (map sensor_id ss) \<Longrightarrow>
   beamMeshes (fold (updateSensorBeams rc sm om wm) ss bm) =
   filter (\<lambda>(k, _). k \<notin> sensor_id ` {s \<in> set ss. \<not> skipsUntouched sm s}) (beamMeshes bm) @
   List.map_filter (\<lambda>s. map_option (Pair (sensor_id s)) (generatedGroup rc sm om wm s)) ss"
proof (induction ss arbitrary: bm)
  case Nil
  then show ?case by (simp add: List.map_filter_simps)
next
  case (Cons s ss)
  let ?k = "sensor_id s"
  let ?T = "sensor_id ` {s \<in> set ss. \<not> skipsUntouched sm s}"
  have fresh: "?k \<notin> sensor_id ` set ss" and d: "distinct (map sensor_id ss)"
    using Cons.prems by auto
  then have nT: "?k \<notin> ?T" by auto
  have IH: "beamMeshes (fold (updateSensorBeams rc sm om wm) ss (updateSensorBeams rc sm om wm s bm)) =
        filter (\<lambda>(k, _). k \<notin> ?T) (beamMeshes (updateSensorBeams rc sm om wm s bm)) @
        List.map_filter (\<lambda>s. map_option (Pair (sensor_id s)) (generatedGroup rc sm om wm s)) ss"
    by (rule Cons.IH [OF d])
  show ?case
  proof (cases "skipsUntouched sm s")
    case True
    then have v: "visible s" and g: "generatedGroup rc sm om wm s = None"
      by (auto simp: skipsUntouched_def generatedGroup_None_iff)
    have T: "sensor_id ` {x \<in> set (s # ss). \<not> skipsUntouched sm x} = ?T" using True by auto
    show ?thesis
      by (subst T) (simp add: IH beamMeshes_step v g List.map_filter_simps)
  next
    case False
    have T: "sensor_id ` {x \<in> set (s # ss). \<not> skipsUntouched sm x} = insert ?k ?T"
      using False by auto
    have f: "filter (\<lambda>(k, _). k \<notin> ?T) (AList.delete ?k al) =
             filter (\<lambda>(k, _). k \<notin> insert ?k ?T) al" for al :: "(string \<times> BeamGroup) list"
      by (induction al) (auto simp: AList.delete_eq)
    show ?thesis
    proof (cases "visible s")
      case True
      with False obtain G where g: "generatedGroup rc sm om wm s = Some G"
        using generatedGroup_None_iff [of rc sm om wm s] by auto
      show ?thesis
        using nT by (subst T) (simp add: IH beamMeshes_step True g f List.map_filter_simps)
    next
      case inv: False
      then have g: "generatedGroup rc sm om wm s = None" by (simp add: generatedGroup_None_iff)
      show ?thesis
        by (subst T) (simp add: IH beamMeshes_step inv g f List.map_filter_simps)
    qed
  qed
qed

lemma beamMeshes_second_loop:
  "beamMeshes (fold (\<lambda>k b. if k \<notin> A then clearBeamsForSensor k b else b) ks bm) =
   filter (\<lambda>(k, _). k \<in> A \<or> k \<notin> set ks) (beamMeshes bm)"
proof (induction ks arbitrary: bm)
  case Nil
  then show ?case by simp
next
  case (Cons k ks)
  have "filter (\<lambda>(k', _). k' \<in> A \<or> k' \<notin> set ks) (AList.delete k al) =
        filter (\<lambda>(k', _). k' \<in> A \<or> k' \<notin> set (k # ks)) al"
    if "k \<notin> A" for al :: "(string \<times> BeamGroup) list"
    using that by (induction al) (auto simp: AList.delete_eq)
  moreover have "filter (\<lambda>(k', _). k' \<in> A \<or> k' \<notin> set ks) al =
        filter (\<lambda>(k', _). k' \<in> A \<or> k' \<notin> set (k # ks)) al"
    if "k \<in> A" for al :: "(string \<times> BeamGroup) list"
    using that by (induction al) auto
  ultimately show ?case
    by (simp add: Cons.IH beamMeshes_clear)
qed

lemma fst_generatedEntries:
  "fst ` set (generatedEntries rc sm om wm) =
   sensor_id ` {s \<in> set (getAllPlacedSensorData sm). visible s \<and> \<not> skipsUntouched sm s}"
proof -
  have "(k, G) \<in> set (List.map_filter (\<lambda>s. map_option (Pair (sensor_id s)) (f s)) ss) \<longleftrightarrow>
        (\<exists>s \<in> set ss. sensor_id s = k \<and> f s = Some G)"
    for k G ss and f :: "PlacedSensorData \<Rightarrow> BeamGroup option"
    by (induction ss) (auto simp: List.map_filter_simps split: option.splits)
  then have "set (generatedEntries rc sm om wm) =
             {(sensor_id s, G) | s G. s \<in> set (getAllPlacedSensorData sm) \<and>
                generatedGroup rc sm om wm s = Some G}"
    by (auto simp: generatedEntries_def)
  then show ?thesis
    using generatedGroup_None_iff [of rc sm om wm]
    by (auto simp: image_iff) (metis not_Some_eq)+
qed

lemma beamMeshes_updateBeams:
  assumes "distinct (map sensor_id (getAllPlacedSensorData sm))"
  shows "beamMeshes (updateBeams rc sm om wm bm) =
         filter (\<lambda>(k, _). k \<in> sensor_id ` {s \<in> set (getAllPlacedSensorData sm). skipsUntouched sm s})
                (beamMeshes bm) @
         generatedEntries rc sm om wm"
proof -
  let ?ss = "getAllPlacedSensorData sm"
  define ids where "ids = set (map sensor_id ?ss)"
  define T where "T = sensor_id ` {s \<in> set ?ss. \<not> skipsUntouched sm s}"
  define S where "S = sensor_id ` {s \<in> set ?ss. skipsUntouched sm s}"
  let ?bm1 = "fold (updateSensorBeams rc sm om wm) ?ss bm"
  have one: "beamMeshes ?bm1 = filter (\<lambda>(k, _). k \<notin> T) (beamMeshes bm) @ generatedEntries rc sm om wm"
    using beamMeshes_first_loop [OF assms] by (simp add: generatedEntries_def T_def)
  have two: "beamMeshes (updateBeams rc sm om wm bm) =
             filter (\<lambda>(k, _). k \<in> ids) (beamMeshes ?bm1)"
  proof -
    have "filter (\<lambda>(k, _). k \<in> ids \<or> k \<notin> set (map fst al)) al = filter (\<lambda>(k, _). k \<in> ids) al"
      for al :: "(string \<times> BeamGroup) list"
      by (rule filter_cong) (auto simp: image_iff)
    then show ?thesis
      by (simp add: updateBeams_def Let_def beamMeshes_second_loop ids_def)
  qed
  have gen: "filter (\<lambda>(k, _). k \<in> ids) (generatedEntries rc sm om wm) = generatedEntries rc sm om wm"
  proof -
    have "fst p \<in> ids" if "p \<in> set (generatedEntries rc sm om wm)" for p
      using that fst_generatedEntries [of rc sm om wm] by (auto simp: image_iff ids_def)
    then show ?thesis by (auto simp: filter_id_conv)
  qed
  have inj: "s = s'" if "s \<in> set ?ss" "s' \<in> set ?ss" "sensor_id s = sensor_id s'" for s s'
    using assms that by (meson distinct_map inj_onD)
  have disj: "k \<in> ids \<and> k \<notin> T \<longleftrightarrow> k \<in> S" for k
  proof
    assume a: "k \<in> ids \<and> k \<notin> T"
    then obtain s where s: "s \<in> set ?ss" "sensor_id s = k" by (auto simp: ids_def)
    with a have "skipsUntouched sm s" by (auto simp: T_def)
    with s show "k \<in> S" by (auto simp: S_def)
  next
    assume "k \<in> S"
    then obtain s where s: "s \<in> set ?ss" "sensor_id s = k" "skipsUntouched sm s"
      by (auto simp: S_def)
    then have "k \<in> ids" by (auto simp: ids_def)
    moreover have "k \<notin> T"
    proof
      assume "k \<in> T"
      then obtain s' where s': "s' \<in> set ?ss" "sensor_id s' = k" "\<not> skipsUntouched sm s'"
        by (auto simp: T_def)
      with s inj [of s s'] show False by auto
    qed
    ultimately show "k \<in> ids \<and> k \<notin> T" by simp
  qed
  have "filter (\<lambda>(k, _). k \<in> ids) (filter (\<lambda>(k, _). k \<notin> T) al) = filter (\<lambda>(k, _). k \<in> S) al"
    for al :: "(string \<times> BeamGroup) list"
    using disj by (induction al) auto
  then show ?thesis by (simp add: two one gen S_def)
qed

lemma remove1_map_snd:
  "distinct (map fst al) \<Longrightarrow> inj_on snd (set al) \<Longrightarrow> map_of al k = Some g \<Longrightarrow>
   remove1 g (map snd al) = map snd (AList.delete k al)"
proof (induction al)
  case Nil
  then show ?case by simp
next
  case (Cons p al)
  obtain k' g' where p: "p = (k', g')" by (cases p)
  show ?case
  proof (cases "k' = k")
    case True
    with Cons.prems p have "g' = g" and "k \<notin> fst ` set al" by auto
    then show ?thesis by (simp add: p True)
  next
    case False
    with Cons.prems p have m: "map_of al k = Some g" by simp
    then have "(k, g) \<in> set al" by (rule map_of_SomeD)
    with Cons.prems(2) False have "g' \<noteq> g" by (auto simp: p inj_on_def)
    moreover have "remove1 g (map snd al) = map snd (AList.delete k al)"
      using Cons.prems m by (intro Cons.IH) (auto simp: inj_on_def)
    ultimately show ?thesis using False by (simp add: p)
  qed
qed

lemma wfBeamManager_inj:
  assumes "wfBeamManager bm"
  shows "inj_on snd (set (beamMeshes bm))"
proof (rule inj_onI)
  fix p q assume pq: "p \<in> set (beamMeshes bm)" "q \<in> set (beamMeshes bm)" "snd p = snd q"
  obtain k g k' g' where e: "p = (k, g)" "q = (k', g')" by (cases p, cases q)
  with pq assms have "beams_name g = ''beams_'' @ k" "beams_name g' = ''beams_'' @ k'" "g = g'"
    by (auto simp: wfBeamManager_def list_all_iff)
  then show "p = q" by (simp add: e)
qed

lemma wf_clearBeamsForSensor:
  assumes "wfBeamManager bm"
  shows "wfBeamManager (clearBeamsForSensor k bm)"
proof (cases "map_of (beamMeshes bm) k")
  case None
  with assms show ?thesis by (simp add: clearBeamsForSensor_def)
next
  case (Some g)
  have d: "distinct (map fst (beamMeshes bm))" and sc: "scene bm = map snd (beamMeshes bm)"
    and nm: "list_all (\<lambda>(k, g). beams_name g = ''beams_'' @ k) (beamMeshes bm)"
    using assms by (simp_all add: wfBeamManager_def)
  have "remove1 g (scene bm) = map snd (AList.delete k (beamMeshes bm))"
    unfolding sc by (rule remove1_map_snd [OF d wfBeamManager_inj [OF assms] Some])
  moreover have "list_all (\<lambda>(k, g). beams_name g = ''beams_'' @ k) (AList.delete k (beamMeshes bm))"
    using nm by (auto simp: list_all_iff AList.delete_eq)
  ultimately show ?thesis
    using d by (simp add: clearBeamsForSensor_def Some wfBeamManager_def distinct_delete)
qed

lemma wf_generateBeamsForSensor:
  assumes "wfBeamManager bm"
  shows "wfBeamManager (generateBeamsForSensor rc om wm s d g bm)"
proof -
  let ?k = "sensor_id s"
  let ?bm1 = "clearBeamsForSensor ?k bm"
  have w: "wfBeamManager ?bm1" by (rule wf_clearBeamsForSensor [OF assms])
  have fresh: "?k \<notin> fst ` set (beamMeshes ?bm1)"
    by (simp add: beamMeshes_clear delete_notin_dom)
  show ?thesis
    using w fresh
    by (simp add: generateBeamsForSensor_def Let_def wfBeamManager_def update_fresh image_iff)
qed

lemma wf_updateSensorBeams:
  "wfBeamManager bm \<Longrightarrow> wfBeamManager (updateSensorBeams rc sm om wm s bm)"
  by (auto simp: updateSensorBeams_def wf_clearBeamsForSensor wf_generateBeamsForSensor
      split: option.splits)

lemma wf_fold_updateSensorBeams:
  "wfBeamManager bm \<Longrightarrow> wfBeamManager (fold (updateSensorBeams rc sm om wm) ss bm)"
  by (induction ss arbitrary: bm) (simp_all add: wf_updateSensorBeams)

lemma wf_fold_clear:
  "wfBeamManager bm \<Longrightarrow>
   wfBeamManager (fold (\<lambda>k b. if k \<notin> A then clearBeamsForSensor k b else b) ks bm)"
  by (induction ks arbitrary: bm) (simp_all add: wf_clearBeamsForSensor)

lemma wf_emptyBeamManager: "wfBeamManager emptyBeamManager"
  by (simp add: wfBeamManager_def emptyBeamManager_def)

lemma wf_updateBeams: "wfBeamManager bm \<Longrightarrow> wfBeamManager (updateBeams rc sm om wm bm)"
  by (simp add: updateBeams_def Let_def wf_fold_clear wf_fold_updateSensorBeams)

lemma held_clear: "disposedOrHeld k g bm \<Longrightarrow> disposedOrHeld k g (clearBeamsForSensor k' bm)"
  by (cases "k' = k")
     (auto simp: disposedOrHeld_def clearBeamsForSensor_def delete_conv' split: option.splits)

lemma held_generate:
  "sensor_id s \<noteq> k \<Longrightarrow> disposedOrHeld k g bm \<Longrightarrow>
   disposedOrHeld k g (generateBeamsForSensor rc om wm s d gr bm)"
proof -
  assume n: "sensor_id s \<noteq> k" and h: "disposedOrHeld k g bm"
  have "disposedOrHeld k g (clearBeamsForSensor (sensor_id s) bm)" by (rule held_clear [OF h])
  with n show ?thesis
    by (auto simp: disposedOrHeld_def generateBeamsForSensor_def Let_def update_conv')
qed

lemma held_step:
  "sensor_id s \<noteq> k \<or> \<not> visible s \<Longrightarrow> disposedOrHeld k g bm \<Longrightarrow>
   disposedOrHeld k g (updateSensorBeams rc sm om wm s bm)"
  by (auto simp: updateSensorBeams_def held_clear held_generate split: option.splits)

lemma held_first_loop:
  "\<forall>s \<in> set ss. sensor_id s \<noteq> k \<or> \<not> visible s \<Longrightarrow> disposedOrHeld k g bm \<Longrightarrow>
   disposedOrHeld k g (fold (updateSensorBeams rc sm om wm) ss bm)"
  by (induction ss arbitrary: bm) (simp_all add: held_step)

lemma held_second_loop:
  "disposedOrHeld k g bm \<Longrightarrow>
   disposedOrHeld k g (fold (\<lambda>k b. if k \<notin> A then clearBeamsForSensor k b else b) ks bm)"
  by (induction ks arbitrary: bm) (simp_all add: held_clear)

lemma held_updateBeams:
  "\<forall>s \<in> set (getAllPlacedSensorData sm). sensor_id s \<noteq> k \<or> \<not> visible s \<Longrightarrow>
   disposedOrHeld k g bm \<Longrightarrow> disposedOrHeld k g (updateBeams rc sm om wm bm)"
  by (simp add: updateBeams_def Let_def held_second_loop held_first_loop)

lemma skipped_key_absent:
  assumes d: "distinct (map sensor_id (getAllPlacedSensorData sm))"
    and k: "\<forall>s \<in> set (getAllPlacedSensorData sm). sensor_id s \<noteq> k \<or> \<not> visible s"
  shows "k \<notin> fst ` set (beamMeshes (updateBeams rc sm om wm bm))"
proof
  assume "k \<in> fst ` set (beamMeshes (updateBeams rc sm om wm bm))"
  then consider "k \<in> sensor_id ` {s \<in> set (getAllPlacedSensorData sm). skipsUntouched sm s}"
    | "k \<in> fst ` set (generatedEntries rc sm om wm)"
    unfolding beamMeshes_updateBeams [OF d] by auto
  then show False
  proof cases
    case 1
    with k show False by (auto simp: skipsUntouched_def)
  next
    case 2
    with k show False unfolding fst_generatedEntries by auto
  qed
qed

section \<open>Releasing the beams of skipped sensors\<close>

lemma distinct_ids_exampleSensors: "distinct (map sensor_id (getAllPlacedSensorData exampleSensors))"
  by (simp add: getAllPlacedSensorData_def placedSensorData_exampleSensors exampleSensor_def)

lemma wf_earlierBeams: "wfBeamManager earlierBeams"
  by (simp add: wfBeamManager_def earlierBeams_def exampleBeamGroup_def)

text \<open>
  C2, as the code has it. When the beam manager's own state is as its operations leave it
  and the placed sensors have distinct ids, then after one evaluation every sensor id that
  is no longer placed, or is placed and invisible, has no registered beam group, the scene
  holds no group with its name, and every geometry of the group registered for it before
  the evaluation has been disposed.
\<close>

theorem skipped_sensor_released:
  assumes w: "wfBeamManager bm"
    and d: "distinct (map sensor_id (getAllPlacedSensorData sm))"
    and k: "k \<notin> sensor_id ` set (getAllPlacedSensorData sm) \<or>
            (\<exists>s \<in> set (getAllPlacedSensorData sm). sensor_id s = k \<and> \<not> visible s)"
  shows "map_of (beamMeshes (updateBeams rc sm om wm bm)) k = None \<and>
         (\<forall>g \<in> set (scene (updateBeams rc sm om wm bm)). beams_name g \<noteq> ''beams_'' @ k) \<and>
         (\<forall>g. map_of (beamMeshes bm) k = Some g \<longrightarrow>
              set (map beam_geometry (children g)) \<subseteq>
              set (disposed (updateBeams rc sm om wm bm)))"
proof -
  let ?bm' = "updateBeams rc sm om wm bm"
  have inj: "s = s'" if "s \<in> set (getAllPlacedSensorData sm)" "s' \<in> set (getAllPlacedSensorData sm)"
    "sensor_id s = sensor_id s'" for s s'
    using d that by (meson distinct_map inj_onD)
  have sk: "\<forall>s \<in> set (getAllPlacedSensorData sm). sensor_id s \<noteq> k \<or> \<not> visible s"
    using k inj by auto
  have absent: "k \<notin> fst ` set (beamMeshes ?bm')" by (rule skipped_key_absent [OF d sk])
  then have none: "map_of (beamMeshes ?bm') k = None" by (simp add: map_of_eq_None_iff)
  have w': "wfBeamManager ?bm'" by (rule wf_updateBeams [OF w])
  have names: "beams_name g \<noteq> ''beams_'' @ k" if "g \<in> set (scene ?bm')" for g
  proof -
    from that w' obtain k' where "(k', g) \<in> set (beamMeshes ?bm')"
      by (auto simp: wfBeamManager_def)
    moreover from this w' have "beams_name g = ''beams_'' @ k'"
      by (auto simp: wfBeamManager_def list_all_iff)
    ultimately show ?thesis using absent by (auto simp: image_iff)
  qed
  have disp: "set (map beam_geometry (children g)) \<subseteq> set (disposed ?bm')"
    if "map_of (beamMeshes bm) k = Some g" for g
  proof -
    from that have "disposedOrHeld k g bm" by (simp add: disposedOrHeld_def)
    then have "disposedOrHeld k g ?bm'" by (rule held_updateBeams [OF sk])
    with none show ?thesis by (simp add: disposedOrHeld_def)
  qed
  show ?thesis using none names disp by blast
qed

theorem skipped_sensor_released_witness:
  "map_of (beamMeshes (updateBeams exampleRaycast exampleSensors exampleObstacles exampleWorld
             earlierBeams)) ''sen-2'' = None \<and>
   map_of (beamMeshes (updateBeams exampleRaycast exampleSensors exampleObstacles exampleWorld
             earlierBeams)) ''sen-3'' = None \<and>
   set (map beam_geometry (children (exampleBeamGroup ''sen-2''))) \<subseteq>
   set (disposed (updateBeams exampleRaycast exampleSensors exampleObstacles exampleWorld
             earlierBeams))"
proof -
  have hidden: "''sen-2'' \<notin> sensor_id ` set (getAllPlacedSensorData exampleSensors) \<or>
        (\<exists>s \<in> set (getAllPlacedSensorData exampleSensors). sensor_id s = ''sen-2'' \<and> \<not> visible s)"
    by (simp add: getAllPlacedSensorData_def placedSensorData_exampleSensors exampleSensor_def)
  have removed: "''sen-3'' \<notin> sensor_id ` set (getAllPlacedSensorData exampleSensors) \<or>
        (\<exists>s \<in> set (getAllPlacedSensorData exampleSensors). sensor_id s = ''sen-3'' \<and> \<not> visible s)"
    by (simp add: getAllPlacedSensorData_def placedSensorData_exampleSensors exampleSensor_def)
  have before: "map_of (beamMeshes earlierBeams) ''sen-2'' = Some (exampleBeamGroup ''sen-2'')"
    by (simp add: earlierBeams_def)
  show ?thesis
    using skipped_sensor_released [OF wf_earlierBeams distinct_ids_exampleSensors hidden,
        of exampleRaycast exampleObstacles exampleWorld]
      skipped_sensor_released [OF wf_earlierBeams distinct_ids_exampleSensors removed,
        of exampleRaycast exampleObstacles exampleWorld]
      before
    by blast
qed

text \<open>
  C2 as the specification words it also promises the release for a sensor that is skipped
  because its definition is missing. The code does nothing for such a sensor: here the
  visible sensor \<open>sen-1\<close> has no definition, and its earlier beam group is still
  registered and still in the scene after the evaluation, with nothing of it disposed.
\<close>

theorem skipped_sensor_released_counterexample:
  "visible exampleSensor \<and>
   getSensorDefinitionById orphanSensors (definitionId exampleSensor) = None \<and>
   updateBeams exampleRaycast orphanSensors exampleObstacles exampleWorld earlierBeams =
     \<lparr> beamMeshes = [(''sen-1'', exampleBeamGroup ''sen-1'')],
       scene = [exampleBeamGroup ''sen-1''],
       disposed = map beam_geometry (children (exampleBeamGroup ''sen-2'')) @
                  map beam_geometry (children (exampleBeamGroup ''sen-3'')) \<rparr>"
  by (simp add: updateBeams_def Let_def getAllPlacedSensorData_def orphanSensors_def
      updateSensorBeams_def getSensorDefinitionById_def getPlacedSensorById_def
      clearBeamsForSensor_def earlierBeams_def exampleSensor_def exampleBeamGroup_def)

section \<open>Evaluating twice\<close>

lemma map_of_generatedEntries:
  assumes d: "distinct (map sensor_id (getAllPlacedSensorData sm))"
    and s: "s \<in> set (getAllPlacedSensorData sm)"
    and g: "generatedGroup rc sm om wm s = Some G"
  shows "map_of (generatedEntries rc sm om wm) (sensor_id s) = Some G"
proof -
  have gen: "map_of (List.map_filter (\<lambda>s. map_option (Pair (sensor_id s)) (f s)) ss) (sensor_id s) = Some G"
    if "distinct (map sensor_id ss)" "s \<in> set ss" "f s = Some G"
    for ss and f :: "PlacedSensorData \<Rightarrow> BeamGroup option"
    using that
  proof (induction ss)
    case Nil
    then show ?case by simp
  next
    case (Cons a ss)
    show ?case
    proof (cases "a = s")
      case True
      with Cons.prems show ?thesis by (simp add: List.map_filter_simps)
    next
      case False
      with Cons.prems have "sensor_id a \<noteq> sensor_id s" by auto
      with Cons False show ?thesis
        by (cases "f a") (auto simp: List.map_filter_simps)
    qed
  qed
  show ?thesis
    unfolding generatedEntries_def
    using gen [of "getAllPlacedSensorData sm" "generatedGroup rc sm om wm"] d s g by simp
qed

text \<open>
  C9. With distinct sensor ids, a second evaluation from the same registries and world
  leaves the registered beam groups exactly as the first one left them: the same sensors,
  each with the same beams (positions, directions and lengths), in the same order; the
  scene holds the same groups when the manager's state was as its operations leave it. The
  group an evaluation registers for a sensor is a function of the registries and the
  world alone, whatever beams were there before.
\<close>

theorem evaluation_idempotent:
  assumes d: "distinct (map sensor_id (getAllPlacedSensorData sm))"
  shows "beamMeshes (updateBeams rc sm om wm (updateBeams rc sm om wm bm)) =
           beamMeshes (updateBeams rc sm om wm bm) \<and>
         (wfBeamManager bm \<longrightarrow>
            scene (updateBeams rc sm om wm (updateBeams rc sm om wm bm)) =
            scene (updateBeams rc sm om wm bm)) \<and>
         (\<forall>s \<in> set (getAllPlacedSensorData sm). \<forall>G.
            generatedGroup rc sm om wm s = Some G \<longrightarrow>
            map_of (beamMeshes (updateBeams rc sm om wm bm)) (sensor_id s) = Some G)"
proof -
  define S where "S = sensor_id ` {s \<in> set (getAllPlacedSensorData sm). skipsUntouched sm s}"
  have inj: "s = s'" if "s \<in> set (getAllPlacedSensorData sm)" "s' \<in> set (getAllPlacedSensorData sm)"
    "sensor_id s = sensor_id s'" for s s'
    using d that by (meson distinct_map inj_onD)
  have "fst p \<notin> S" if "p \<in> set (generatedEntries rc sm om wm)" for p
  proof
    assume "fst p \<in> S"
    then obtain s where s: "s \<in> set (getAllPlacedSensorData sm)" "skipsUntouched sm s"
      "fst p = sensor_id s"
      by (auto simp: S_def)
    from that have "fst p \<in> fst ` set (generatedEntries rc sm om wm)" by simp
    then obtain s' where s': "s' \<in> set (getAllPlacedSensorData sm)" "\<not> skipsUntouched sm s'"
      "fst p = sensor_id s'"
      unfolding fst_generatedEntries by auto
    from s(3) s'(3) have "sensor_id s = sensor_id s'" by simp
    with s(1) s'(1) have "s = s'" by (rule inj)
    with s(2) s'(2) show False by simp
  qed
  then have "filter (\<lambda>(k, _). k \<in> S) (generatedEntries rc sm om wm) = []"
    by (auto simp: filter_empty_conv)
  then have same: "beamMeshes (updateBeams rc sm om wm (updateBeams rc sm om wm bm)) =
           beamMeshes (updateBeams rc sm om wm bm)"
    unfolding beamMeshes_updateBeams [OF d] S_def [symmetric] by simp
  have sc: "scene (updateBeams rc sm om wm (updateBeams rc sm om wm bm)) =
            scene (updateBeams rc sm om wm bm)" if "wfBeamManager bm"
  proof -
    have "wfBeamManager (updateBeams rc sm om wm bm)" by (rule wf_updateBeams [OF that])
    moreover from this have "wfBeamManager (updateBeams rc sm om wm (updateBeams rc sm om wm bm))"
      by (rule wf_updateBeams)
    ultimately show ?thesis using same by (simp add: wfBeamManager_def)
  qed
  have fn: "map_of (beamMeshes (updateBeams rc sm om wm bm)) (sensor_id s) = Some G"
    if s: "s \<in> set (getAllPlacedSensorData sm)" and g: "generatedGroup rc sm om wm s = Some G" for s G
  proof -
    have ns: "\<not> skipsUntouched sm s"
      using g generatedGroup_None_iff [of rc sm om wm s] by simp
    have "sensor_id s \<notin> S"
    proof
      assume "sensor_id s \<in> S"
      then obtain s' where s': "s' \<in> set (getAllPlacedSensorData sm)" "skipsUntouched sm s'"
        "sensor_id s = sensor_id s'"
        by (auto simp: S_def)
      with s have "s = s'" by (intro inj)
      with ns s' show False by simp
    qed
    then have "map_of (filter (\<lambda>(k, _). k \<in> S) (beamMeshes bm)) (sensor_id s) = None"
      by (auto simp: map_of_eq_None_iff)
    then show ?thesis
      unfolding beamMeshes_updateBeams [OF d] S_def [symmetric]
      by (simp add: map_add_def map_of_generatedEntries [OF d s g])
  qed
  show ?thesis using same sc fn by blast
qed

theorem evaluation_idempotent_witness:
  "beamMeshes (updateBeams exampleRaycast exampleSensors exampleObstacles exampleWorld
      (updateBeams exampleRaycast exampleSensors exampleObstacles exampleWorld earlierBeams)) =
   beamMeshes (updateBeams exampleRaycast exampleSensors exampleObstacles exampleWorld earlierBeams) \<and>
   scene (updateBeams exampleRaycast exampleSensors exampleObstacles exampleWorld
      (updateBeams exampleRaycast exampleSensors exampleObstacles exampleWorld earlierBeams)) =
   scene (updateBeams exampleRaycast exampleSensors exampleObstacles exampleWorld earlierBeams)"
  using evaluation_idempotent [OF distinct_ids_exampleSensors,
      of exampleRaycast exampleObstacles exampleWorld earlierBeams] wf_earlierBeams
  by blast

end
